theory Spec2Isabelle
  imports Main "HOL-Library.Char_ord" "HOL-Library.List_Lexorder" "HOL-Library.AList"
begin

section \<open>The v5 vulnerability store (grype/db/v5/store/store.go)\<close>

text \<open>
  The store wraps a gorm database handle. The embedding keeps the four tables as lists of
  rows, threads the database through every method as explicit state, and returns Go's
  \<open>(value, error)\<close> pairs as sums or as a value with an \<open>error option\<close>, the way each method
  returns them.
\<close>

subsection \<open>Errors\<close>

text \<open>
  The source builds its errors with \<open>fmt.Errorf\<close>; each message has one constructor here.
  \<open>BackendError\<close> is an error handed up from the database layer (\<open>result.Error\<close>),
  \<open>InflateError\<close> one returned by a row's \<open>Inflate\<close>.
\<close>

datatype error =
    BackendError string
  | InflateError string
  | MultipleIdentityRecords
  | MultipleMetadataRecords string string
  | WriteMismatch string int
  | MetadataConflict string string string
  | VerifyExistingFailed error

subsection \<open>Records of package v5\<close>

text \<open>
  Modelled from the spec: the declarations of package \<open>v5\<close> (\<open>ID\<close>, \<open>VulnerabilityMetadata\<close>,
  \<open>Vulnerability\<close>, \<open>Diff\<close>) are not part of the sources at hand. The fields are the ones the
  data model of the specification lists and \<open>store.go\<close> reads. A CVSS entry is a value of
  the type parameter \<open>'c\<close>.
\<close>

record v5_ID =
  BuildTimestamp :: string
  SchemaVersion :: int

record 'c VulnerabilityMetadata =
  ID :: string
  Namespace :: string
  Severity :: string
  URLs :: "string list"
  Description :: string
  Cvss :: "'c list"

record Vulnerability =
  VulnID :: string
  VulnNamespace :: string
  PackageName :: string
  VersionConstraint :: string

datatype DiffKind = Added | Removed | Changed

record Diff =
  DiffID :: string
  DiffNamespace :: string
  Kind :: DiffKind
  Reasons :: "string list"
  Packages :: "string list"

subsection \<open>Rows of package model\<close>

text \<open>
  Modelled from the spec: package \<open>model\<close> is not part of the sources at hand. Following the
  specification (the store is a plain keyed-record repository and a read returns a copy of
  the stored record), an identity, vulnerability or metadata row holds the record it was
  built from: \<open>NewIDModel\<close> and \<open>NewVulnerabilityMetadataModel\<close> build the row, \<open>Inflate\<close>
  gives the record back and reports no error.
\<close>

type_synonym IDModel = v5_ID
type_synonym 'c VulnerabilityMetadataModel = "'c VulnerabilityMetadata"

definition NewIDModel :: "v5_ID \<Rightarrow> IDModel" where
  "NewIDModel i = i"

definition NewVulnerabilityMetadataModel ::
    "'c VulnerabilityMetadata \<Rightarrow> 'c VulnerabilityMetadataModel" where
  "NewVulnerabilityMetadataModel m = m"

definition Inflate :: "'r \<Rightarrow> error + 'r" where
  "Inflate r = Inr r"

text \<open>
  A match-exclusion row has its \<open>id\<close> column and the stored rule. Its \<open>Inflate\<close> returns a
  pointer that may be nil; the specification does not say when, so the methods that call it
  take it as a parameter of type \<open>'k VulnerabilityMatchExclusionModel \<Rightarrow> error + 'x option\<close>.
\<close>

record 'k VulnerabilityMatchExclusionModel =
  ExclusionID :: string
  Constraints :: 'k

subsection \<open>The database handle\<close>

text \<open>
  The gorm handle is the state every method works on: the four tables, the statements
  run through \<open>Exec\<close> with their outcome, the lines written to the log, and the state of
  the underlying \<open>sql.DB\<close> connection.

  A database call can fail for reasons outside the program. \<open>faults\<close> is the schedule of
  those failures: every call that reaches the database takes the head of the list, fails
  with that error and has no effect when the head is \<open>Some e\<close>, and works when it is
  \<open>None\<close> or the list is empty.
\<close>

datatype conn_state = NoSqlDB | ConnOpen | ConnClosed

datatype log_line =
    Debug string
  | DebugStatement string string
  | WarnStatement string string error

record gorm_result =
  Error :: "error option"
  RowsAffected :: int

record ('c, 'v, 'k) DB =
  id_rows :: "IDModel list"
  vulnerability_rows :: "'v list"
  metadata_rows :: "'c VulnerabilityMetadataModel list"
  exclusion_rows :: "'k VulnerabilityMatchExclusionModel list"
  faults :: "error option list"
  executed :: "(string \<times> bool) list"
  log_lines :: "log_line list"
  conn :: conn_state

definition next_fault :: "('c, 'v, 'k) DB \<Rightarrow> error option \<times> ('c, 'v, 'k) DB" where
  "next_fault s = (case faults s of
       [] \<Rightarrow> (None, s)
     | f # fs \<Rightarrow> (f, s\<lparr>faults := fs\<rparr>))"

text \<open>\<open>db.Where(cond).Find(&models)\<close> on the table \<open>tbl\<close>: the rows that satisfy \<open>cond\<close>.\<close>

definition Find ::
    "(('c, 'v, 'k) DB \<Rightarrow> 'r list) \<Rightarrow> ('r \<Rightarrow> bool) \<Rightarrow> ('c, 'v, 'k) DB
      \<Rightarrow> ('c, 'v, 'k) DB \<times> 'r list \<times> gorm_result" where
  "Find tbl cond s = (case next_fault s of
       (Some e, s') \<Rightarrow> (s', [], \<lparr>Error = Some e, RowsAffected = 0\<rparr>)
     | (None, s') \<Rightarrow>
         (let rows = filter cond (tbl s')
          in (s', rows, \<lparr>Error = None, RowsAffected = int (length rows)\<rparr>)))"

text \<open>
  A write that touches one row (\<open>Create\<close>, \<open>Save\<close>): \<open>upd\<close> is its effect on the tables.
\<close>

definition write_row ::
    "(('c, 'v, 'k) DB \<Rightarrow> ('c, 'v, 'k) DB) \<Rightarrow> ('c, 'v, 'k) DB
      \<Rightarrow> ('c, 'v, 'k) DB \<times> gorm_result" where
  "write_row upd s = (case next_fault s of
       (Some e, s') \<Rightarrow> (s', \<lparr>Error = Some e, RowsAffected = 0\<rparr>)
     | (None, s') \<Rightarrow> (upd s', \<lparr>Error = None, RowsAffected = 1\<rparr>))"

definition Create_id :: "IDModel \<Rightarrow> ('c, 'v, 'k) DB \<Rightarrow> ('c, 'v, 'k) DB \<times> gorm_result" where
  "Create_id m = write_row (\<lambda>s. s\<lparr>id_rows := id_rows s @ [m]\<rparr>)"

definition Create_metadata ::
    "'c VulnerabilityMetadataModel \<Rightarrow> ('c, 'v, 'k) DB \<Rightarrow> ('c, 'v, 'k) DB \<times> gorm_result" where
  "Create_metadata m = write_row (\<lambda>s. s\<lparr>metadata_rows := metadata_rows s @ [m]\<rparr>)"

text \<open>
  \<open>db.Save(&row)\<close> on the metadata table, whose primary key is \<open>(id, namespace)\<close>. When
  a key field of the value is zero-valued (an empty string), gorm's \<open>Save\<close> runs \<open>Create\<close>.
  Otherwise the row with that key is replaced, and the row is inserted when the key is new.
\<close>

definition same_key :: "'c VulnerabilityMetadataModel \<Rightarrow> 'c VulnerabilityMetadataModel \<Rightarrow> bool" where
  "same_key a b \<longleftrightarrow> ID a = ID b \<and> Namespace a = Namespace b"

definition save_rows ::
    "'c VulnerabilityMetadataModel \<Rightarrow> 'c VulnerabilityMetadataModel list
      \<Rightarrow> 'c VulnerabilityMetadataModel list" where
  "save_rows m rows =
     (if ID m = [] \<or> Namespace m = [] then rows @ [m]
      else if list_ex (same_key m) rows
      then map (\<lambda>r. if same_key m r then m else r) rows
      else rows @ [m])"

definition Save_metadata ::
    "'c VulnerabilityMetadataModel \<Rightarrow> ('c, 'v, 'k) DB \<Rightarrow> ('c, 'v, 'k) DB \<times> gorm_result" where
  "Save_metadata m = write_row (\<lambda>s. s\<lparr>metadata_rows := save_rows m (metadata_rows s)\<rparr>)"

text \<open>
  \<open>db.Find(&ids).Delete(&ids)\<close>: the delete is chained onto the find. It is skipped when
  the find failed, and gorm refuses a delete without conditions, which is the case when
  nothing was found. Modelled from the spec: what the delete removes otherwise depends on
  the key of \<open>model.IDModel\<close>, which is not part of the sources at hand; following the
  specification (\<open>SetID\<close> is delete-all-then-insert) it removes the rows found.
\<close>

definition Delete_ids ::
    "gorm_result \<Rightarrow> IDModel list \<Rightarrow> ('c, 'v, 'k) DB \<Rightarrow> ('c, 'v, 'k) DB" where
  "Delete_ids found ids s =
     (if Error found \<noteq> None \<or> ids = [] then s
      else (case next_fault s of
          (Some e, s') \<Rightarrow> s'
        | (None, s') \<Rightarrow> s'\<lparr>id_rows := filter (\<lambda>r. r \<notin> set ids) (id_rows s')\<rparr>))"

text \<open>\<open>db.Exec(stmt)\<close>: the statement and whether it took effect are recorded.\<close>

definition Exec :: "string \<Rightarrow> ('c, 'v, 'k) DB \<Rightarrow> ('c, 'v, 'k) DB \<times> gorm_result" where
  "Exec stmt s = (case next_fault s of
       (Some e, s') \<Rightarrow>
         (s'\<lparr>executed := executed s' @ [(stmt, False)]\<rparr>, \<lparr>Error = Some e, RowsAffected = 0\<rparr>)
     | (None, s') \<Rightarrow>
         (s'\<lparr>executed := executed s' @ [(stmt, True)]\<rparr>, \<lparr>Error = None, RowsAffected = 0\<rparr>))"

definition log_line :: "log_line \<Rightarrow> ('c, 'v, 'k) DB \<Rightarrow> ('c, 'v, 'k) DB" where
  "log_line l s = s\<lparr>log_lines := log_lines s @ [l]\<rparr>"

subsection \<open>Identity\<close>

definition GetID :: "('c, 'v, 'k) DB \<Rightarrow> ('c, 'v, 'k) DB \<times> (error + v5_ID option)" where
  "GetID s =
     (case Find id_rows (\<lambda>_. True) s of (s1, models, result) \<Rightarrow>
        (case Error result of
           Some e \<Rightarrow> (s1, Inl e)
         | None \<Rightarrow>
             if length models > 1 then (s1, Inl MultipleIdentityRecords)
             else if length models = 1 then
               (case Inflate (hd models) of
                  Inl err \<Rightarrow> (s1, Inl err)
                | Inr i \<Rightarrow> (s1, Inr (Some i)))
             else (s1, Inr None)))"

definition SetID :: "('c, 'v, 'k) DB \<Rightarrow> v5_ID \<Rightarrow> ('c, 'v, 'k) DB \<times> error option" where
  "SetID s i =
     (case Find id_rows (\<lambda>_. True) s of (s1, ids, found) \<Rightarrow>
        (let s2 = Delete_ids found ids s1;
             m = NewIDModel i
         in (case Create_id m s2 of (s3, result) \<Rightarrow>
               if RowsAffected result \<noteq> 1
               then (s3, Some (WriteMismatch ''id'' (RowsAffected result)))
               else (s3, Error result))))"

subsection \<open>Namespaces\<close>

text \<open>
  \<open>db.Model(&model.VulnerabilityMetadataModel{}).Distinct().Pluck("namespace", &names)\<close>:
  the distinct values of the \<open>namespace\<close> column of the metadata table. The method
  returns the names together with \<open>result.Error\<close>.
\<close>

definition GetVulnerabilityNamespaces ::
    "('c, 'v, 'k) DB \<Rightarrow> ('c, 'v, 'k) DB \<times> string list \<times> error option" where
  "GetVulnerabilityNamespaces s = (case next_fault s of
       (Some e, s') \<Rightarrow> (s', [], Some e)
     | (None, s') \<Rightarrow> (s', remdups (map Namespace (metadata_rows s')), None))"

subsection \<open>Metadata and the merge policy\<close>

text \<open>
  The lookup \<open>db.Where(&model.VulnerabilityMetadataModel{ID: id, Namespace: namespace})\<close>
  hands gorm a struct condition. gorm builds the query from the non-zero fields of the
  struct only: an empty \<open>id\<close> or \<open>namespace\<close> is not filtered on, so the lookup is the exact
  match on both key columns when both arguments are non-empty, and a match on the other
  column alone (or on none) when one (or both) is empty.
\<close>

definition GetVulnerabilityMetadata ::
    "('c, 'v, 'k) DB \<Rightarrow> string \<Rightarrow> string
      \<Rightarrow> ('c, 'v, 'k) DB \<times> (error + 'c VulnerabilityMetadata option)" where
  "GetVulnerabilityMetadata s i namespace =
     (case Find metadata_rows
             (\<lambda>r. (i = [] \<or> ID r = i) \<and> (namespace = [] \<or> Namespace r = namespace)) s of
        (s1, models, result) \<Rightarrow>
        (case Error result of
           Some e \<Rightarrow> (s1, Inl e)
         | None \<Rightarrow>
             if length models > 1 then (s1, Inl (MultipleMetadataRecords i namespace))
             else if length models = 1 then
               (case Inflate (hd models) of
                  Inl err \<Rightarrow> (s1, Inl err)
                | Inr metadata \<Rightarrow> (s1, Inr (Some metadata)))
             else (s1, Inr None)))"

text \<open>
  \<open>deep.Equal\<close> (go-test/deep) returns the list of differences of two values, empty when
  they are structurally equal.
\<close>

definition deep_Equal :: "'c \<Rightarrow> 'c \<Rightarrow> string list" where
  "deep_Equal a b = (if a = b then [] else [''values differ''])"

text \<open>
  The inner loop of the CVSS merge: is there an entry of \<open>existing.Cvss\<close> that
  \<open>deep.Equal\<close> finds no difference with?
\<close>

fun duplicate_found :: "'c \<Rightarrow> 'c list \<Rightarrow> bool" where
  "duplicate_found incomingCvss [] = False"
| "duplicate_found incomingCvss (existingCvss # rest) =
     (if length (deep_Equal incomingCvss existingCvss) = 0 then True
      else duplicate_found incomingCvss rest)"

text \<open>
  The outer loop, over \<open>m.Cvss\<close>: the first argument is \<open>existing.Cvss\<close>, which grows while
  the loop runs, so the inner loop of a later entry also ranges over the entries appended
  before it.
\<close>

fun merge_Cvss :: "'c list \<Rightarrow> 'c list \<Rightarrow> 'c list" where
  "merge_Cvss existingCvss [] = existingCvss"
| "merge_Cvss existingCvss (incomingCvss # rest) =
     (if duplicate_found incomingCvss existingCvss then merge_Cvss existingCvss rest
      else merge_Cvss (existingCvss @ [incomingCvss]) rest)"

text \<open>
  Modelled from the spec: \<open>stringutil.StringSet\<close> is not part of the sources at hand. It is a
  set of strings. Its \<open>ToSlice\<close> lists the members in an order that neither the sources nor
  the specification fix, so the merge takes it as the parameter \<open>toSlice\<close>; the properties
  below ask of it only that it lists the members of a finite set, each once
  (\<open>lists_members\<close>). \<open>sort.Strings\<close> orders strings bytewise, which is the lexicographic
  order on character lists.
\<close>

definition NewStringSetFromSlice :: "string list \<Rightarrow> string set" where
  "NewStringSetFromSlice xs = set xs"

definition sort_Strings :: "string list \<Rightarrow> string list" where
  "sort_Strings xs = sort xs"

definition merge_URLs ::
    "(string set \<Rightarrow> string list) \<Rightarrow> string list \<Rightarrow> string list \<Rightarrow> string list" where
  "merge_URLs toSlice existingURLs incomingURLs =
     (let links = NewStringSetFromSlice existingURLs;
          links = fold insert incomingURLs links
      in sort_Strings (toSlice links))"

text \<open>The body of the loop of \<open>AddVulnerabilityMetadata\<close>, for one incoming record.\<close>

definition add_one_metadata ::
    "(string set \<Rightarrow> string list) \<Rightarrow> ('c, 'v, 'k) DB \<Rightarrow> 'c VulnerabilityMetadata
      \<Rightarrow> ('c, 'v, 'k) DB \<times> error option" where
  "add_one_metadata toSlice s m =
     (case GetVulnerabilityMetadata s (ID m) (Namespace m) of
        (s1, Inl err) \<Rightarrow> (s1, Some (VerifyExistingFailed err))
      | (s1, Inr (Some existing)) \<Rightarrow>
          if Severity existing \<noteq> Severity m
          then (s1, Some (MetadataConflict ''severity'' (Severity existing) (Severity m)))
          else if Description existing \<noteq> Description m
          then (s1, Some (MetadataConflict ''description'' (Description existing) (Description m)))
          else
            (let existing = existing\<lparr>Cvss := merge_Cvss (Cvss existing) (Cvss m)\<rparr>;
                 existing = existing\<lparr>URLs := merge_URLs toSlice (URLs existing) (URLs m)\<rparr>;
                 newModel = NewVulnerabilityMetadataModel existing
             in (case Save_metadata newModel s1 of (s2, result) \<Rightarrow>
                   if RowsAffected result \<noteq> 1
                   then (s2, Some (WriteMismatch ''merge vulnerability metadata'' (RowsAffected result)))
                   else (s2, Error result)))
      | (s1, Inr None) \<Rightarrow>
          (let newModel = NewVulnerabilityMetadataModel m
           in (case Create_metadata newModel s1 of (s2, result) \<Rightarrow>
                 (case Error result of
                    Some e \<Rightarrow> (s2, Some e)
                  | None \<Rightarrow>
                      if RowsAffected result \<noteq> 1
                      then (s2, Some (WriteMismatch ''add vulnerability metadata'' (RowsAffected result)))
                      else (s2, None)))))"

fun AddVulnerabilityMetadata ::
    "(string set \<Rightarrow> string list) \<Rightarrow> ('c, 'v, 'k) DB \<Rightarrow> 'c VulnerabilityMetadata list
      \<Rightarrow> ('c, 'v, 'k) DB \<times> error option" where
  "AddVulnerabilityMetadata toSlice s [] = (s, None)"
| "AddVulnerabilityMetadata toSlice s (m # metadata) =
     (case add_one_metadata toSlice s m of
        (s', Some err) \<Rightarrow> (s', Some err)
      | (s', None) \<Rightarrow> AddVulnerabilityMetadata toSlice s' metadata)"

subsection \<open>Match exclusions\<close>

text \<open>
  The loop of \<open>GetVulnerabilityMatchExclusion\<close>: \<open>exclusions\<close> is the slice built so far.
  A row whose \<open>Inflate\<close> fails ends the loop with that error; a row that inflates to nil
  is passed over.
\<close>

fun inflate_exclusions ::
    "('k VulnerabilityMatchExclusionModel \<Rightarrow> error + 'x option)
      \<Rightarrow> 'k VulnerabilityMatchExclusionModel list \<Rightarrow> 'x list \<Rightarrow> error + 'x list" where
  "inflate_exclusions inflate [] exclusions = Inr exclusions"
| "inflate_exclusions inflate (m # models) exclusions =
     (case inflate m of
        Inl err \<Rightarrow> Inl err
      | Inr None \<Rightarrow> inflate_exclusions inflate models exclusions
      | Inr (Some exclusion) \<Rightarrow> inflate_exclusions inflate models (exclusions @ [exclusion]))"

definition GetVulnerabilityMatchExclusion ::
    "('k VulnerabilityMatchExclusionModel \<Rightarrow> error + 'x option)
      \<Rightarrow> ('c, 'v, 'k) DB \<Rightarrow> string \<Rightarrow> ('c, 'v, 'k) DB \<times> 'x list \<times> error option" where
  "GetVulnerabilityMatchExclusion inflate s i =
     (case Find exclusion_rows (\<lambda>r. ExclusionID r = i) s of (s1, models, result) \<Rightarrow>
        (case inflate_exclusions inflate models [] of
           Inl err \<Rightarrow> (s1, [], Some err)
         | Inr exclusions \<Rightarrow> (s1, exclusions, Error result)))"

subsection \<open>Close\<close>

definition memoryEfficientStatements :: "string list" where
  "memoryEfficientStatements =
     [''PRAGMA cache_size = -32768'',
      ''PRAGMA temp_store = FILE'',
      ''PRAGMA mmap_size = 67108864'',
      ''PRAGMA journal_mode = TRUNCATE'']"

fun apply_statements :: "string list \<Rightarrow> ('c, 'v, 'k) DB \<Rightarrow> ('c, 'v, 'k) DB" where
  "apply_statements [] s = s"
| "apply_statements (stmt # rest) s =
     (case Exec stmt s of (s', result) \<Rightarrow>
        (case Error result of
           Some err \<Rightarrow>
             apply_statements rest
               (log_line (WarnStatement ''failed to apply memory optimization'' stmt err) s')
         | None \<Rightarrow>
             apply_statements rest
               (log_line (DebugStatement ''applied memory optimization'' stmt) s')))"

text \<open>
  \<open>s.db.DB()\<close> gives the \<open>sql.DB\<close> behind the handle, or nil when there is none;
  \<open>sqlDB.Close()\<close> reaches the database, and its error is dropped.
\<close>

definition sql_DB :: "('c, 'v, 'k) DB \<Rightarrow> unit option" where
  "sql_DB s = (if conn s = NoSqlDB then None else Some ())"

definition sqlDB_Close :: "('c, 'v, 'k) DB \<Rightarrow> ('c, 'v, 'k) DB" where
  "sqlDB_Close s = (case next_fault s of
       (Some e, s') \<Rightarrow> s'
     | (None, s') \<Rightarrow> s'\<lparr>conn := ConnClosed\<rparr>)"

definition Close :: "('c, 'v, 'k) DB \<Rightarrow> ('c, 'v, 'k) DB \<times> error option" where
  "Close s =
     (let s = log_line (Debug ''optimizing database settings for memory-efficient VACUUM'') s;
          s = apply_statements memoryEfficientStatements s;
          s = log_line (Debug ''starting database VACUUM operation'') s;
          s = fst (Exec ''VACUUM;'' s);
          s = log_line (Debug ''database VACUUM operation completed'') s;
          sqlDB = sql_DB s;
          s = (if sqlDB \<noteq> None then sqlDB_Close s else s)
      in (s, None))"

subsection \<open>Full-table reads\<close>

text \<open>The loop that inflates every row read, stopping at the first error.\<close>

fun inflate_all :: "'r list \<Rightarrow> error + 'r list" where
  "inflate_all [] = Inr []"
| "inflate_all (m # models) =
     (case Inflate m of
        Inl err \<Rightarrow> Inl err
      | Inr v \<Rightarrow> (case inflate_all models of
                   Inl err \<Rightarrow> Inl err
                 | Inr vs \<Rightarrow> Inr (v # vs)))"

definition GetAllVulnerabilities ::
    "('c, 'v, 'k) DB \<Rightarrow> ('c, 'v, 'k) DB \<times> (error + 'v list)" where
  "GetAllVulnerabilities s =
     (case Find vulnerability_rows (\<lambda>_. True) s of (s1, models, result) \<Rightarrow>
        (case Error result of
           Some e \<Rightarrow> (s1, Inl e)
         | None \<Rightarrow> (s1, inflate_all models)))"

definition GetAllVulnerabilityMetadata ::
    "('c, 'v, 'k) DB \<Rightarrow> ('c, 'v, 'k) DB \<times> (error + 'c VulnerabilityMetadata list)" where
  "GetAllVulnerabilityMetadata s =
     (case Find metadata_rows (\<lambda>_. True) s of (s1, models, result) \<Rightarrow>
        (case Error result of
           Some e \<Rightarrow> (s1, Inl e)
         | None \<Rightarrow> (s1, inflate_all models)))"

subsection \<open>DiffStore\<close>

text \<open>
  A progress counter (\<open>progress.Manual\<close> of go-progress): its count, and whether it has been
  marked complete.
\<close>

record Manual =
  current :: int
  total :: int
  completed :: bool

definition Increment :: "Manual \<Rightarrow> Manual" where
  "Increment p = p\<lparr>current := current p + 1\<rparr>"

definition SetCompleted :: "Manual \<Rightarrow> Manual" where
  "SetCompleted p = p\<lparr>completed := True\<rparr>"

text \<open>
  Modelled from the spec: \<open>trackDiff\<close> is not part of the sources at hand. It hands out the
  row counter, the diff-item counter and the stage name that \<open>DiffStore\<close> drives; the
  argument is the number of stages.
\<close>

record tracking =
  stager_Current :: string
  rowsProgress :: Manual
  diffItems :: Manual

definition trackDiff :: "int \<Rightarrow> tracking" where
  "trackDiff n =
     \<lparr>stager_Current = [],
      rowsProgress = \<lparr>current = 0, total = n, completed = False\<rparr>,
      diffItems = \<lparr>current = 0, total = 0, completed = False\<rparr>\<rparr>"

text \<open>
  The target store is handed in behind the read-only interface \<open>v5.StoreReader\<close>; the
  engine calls its two full-table reads, once each.
\<close>

record ('c, 'v) StoreReader =
  reader_GetAllVulnerabilities :: "error + 'v list"
  reader_GetAllVulnerabilityMetadata :: "error + 'c VulnerabilityMetadata list"

text \<open>
  \<open>buildVulnerabilityPkgsMap\<close>, \<open>diffVulnerabilities\<close> and \<open>diffVulnerabilityMetadata\<close> are not
  part of the sources at hand, so \<open>DiffStore\<close> takes them as the parameters \<open>build\<close>, \<open>diffV\<close>
  and \<open>diffM\<close>. The two diff stages get the diff-item counter and return it updated. A Go
  map of diffs is an association list; \<open>m[k] = diff\<close> is \<open>AList.update\<close>, and ranging over
  a map visits its entries in the order of the list.
\<close>

definition merge_diffs :: "('key \<times> Diff) list \<Rightarrow> ('key \<times> Diff) list \<Rightarrow> ('key \<times> Diff) list" where
  "merge_diffs metaDiffsMap allDiffsMap =
     fold (\<lambda>(k, diff) m. AList.update k diff m) metaDiffsMap allDiffsMap"

definition flatten_diffs :: "('key \<times> Diff) list \<Rightarrow> Diff list" where
  "flatten_diffs allDiffsMap = fold (\<lambda>(k, diff) allDiffs. allDiffs @ [diff]) allDiffsMap []"

definition set_stage :: "string \<Rightarrow> tracking \<Rightarrow> tracking" where
  "set_stage name t = t\<lparr>stager_Current := name\<rparr>"

definition rows_Increment :: "tracking \<Rightarrow> tracking" where
  "rows_Increment t = t\<lparr>rowsProgress := Increment (rowsProgress t)\<rparr>"

definition DiffStore ::
    "('v list \<Rightarrow> 'pm)
      \<Rightarrow> ('v list \<Rightarrow> 'v list \<Rightarrow> 'pm \<Rightarrow> 'pm \<Rightarrow> Manual \<Rightarrow> ('key \<times> Diff) list \<times> Manual)
      \<Rightarrow> ('c VulnerabilityMetadata list \<Rightarrow> 'c VulnerabilityMetadata list \<Rightarrow> 'pm \<Rightarrow> 'pm \<Rightarrow> Manual
            \<Rightarrow> ('key \<times> Diff) list \<times> Manual)
      \<Rightarrow> ('c, 'v, 'k) DB \<Rightarrow> ('c, 'v) StoreReader
      \<Rightarrow> tracking \<times> ('c, 'v, 'k) DB \<times> (error + Diff list)" where
  "DiffStore build diffV diffM s targetStore =
     (let t = trackDiff 7;
          t = set_stage ''reading target vulnerabilities'' t;
          targetVulns = reader_GetAllVulnerabilities targetStore;
          t = rows_Increment t
      in case targetVulns of
           Inl err \<Rightarrow> (t, s, Inl err)
         | Inr targetVulns \<Rightarrow>
      (let t = set_stage ''reading base vulnerabilities'' t
       in case GetAllVulnerabilities s of (s, baseVulns) \<Rightarrow>
      (let t = rows_Increment t
       in case baseVulns of
            Inl err \<Rightarrow> (t, s, Inl err)
          | Inr baseVulns \<Rightarrow>
      (let t = set_stage ''preparing'' t;
           baseVulnPkgMap = build baseVulns;
           targetVulnPkgMap = build targetVulns;
           t = set_stage ''comparing vulnerabilities'' t
       in case diffV baseVulns targetVulns baseVulnPkgMap targetVulnPkgMap (diffItems t) of
            (allDiffsMap, items) \<Rightarrow>
      (let t = t\<lparr>diffItems := items\<rparr>;
           t = set_stage ''reading base metadata'' t
       in case GetAllVulnerabilityMetadata s of (s, baseMetadata) \<Rightarrow>
      (case baseMetadata of
            Inl err \<Rightarrow> (t, s, Inl err)
          | Inr baseMetadata \<Rightarrow>
      (let t = rows_Increment t;
           t = set_stage ''reading target metadata'' t
       in case reader_GetAllVulnerabilityMetadata targetStore of
            Inl err \<Rightarrow> (t, s, Inl err)
          | Inr targetMetadata \<Rightarrow>
      (let t = rows_Increment t;
           t = set_stage ''comparing metadata'' t
       in case diffM baseMetadata targetMetadata baseVulnPkgMap targetVulnPkgMap (diffItems t) of
            (metaDiffsMap, items) \<Rightarrow>
      (let t = t\<lparr>diffItems := items\<rparr>;
           allDiffsMap = merge_diffs metaDiffsMap allDiffsMap;
           allDiffs = flatten_diffs allDiffsMap;
           t = t\<lparr>rowsProgress := SetCompleted (rowsProgress t)\<rparr>;
           t = t\<lparr>diffItems := SetCompleted (diffItems t)\<rparr>
       in (t, s, Inr allDiffs))))))))))"

subsection \<open>Vocabulary of the properties\<close>

text \<open>
  \<open>stored_metadata s i namespace\<close> are the metadata rows held under the key
  \<open>(i, namespace)\<close>; \<open>calls_work n s\<close> says that the database fails none of the next \<open>n\<close>
  calls; \<open>empty_store\<close> is the store that \<open>New\<close> returns for a truncated database
  on which no failure is scheduled; \<open>lists_members toSlice\<close> says that \<open>toSlice\<close> lists the
  members of every finite set, each once, in whatever order.
\<close>

definition lists_members :: "(string set \<Rightarrow> string list) \<Rightarrow> bool" where
  "lists_members toSlice \<longleftrightarrow>
     (\<forall>links. finite links \<longrightarrow> set (toSlice links) = links \<and> distinct (toSlice links))"

definition stored_metadata ::
    "('c, 'v, 'k) DB \<Rightarrow> string \<Rightarrow> string \<Rightarrow> 'c VulnerabilityMetadataModel list" where
  "stored_metadata s i namespace =
     filter (\<lambda>r. ID r = i \<and> Namespace r = namespace) (metadata_rows s)"

definition calls_work :: "nat \<Rightarrow> ('c, 'v, 'k) DB \<Rightarrow> bool" where
  "calls_work n s \<longleftrightarrow> list_all (\<lambda>f. f = None) (take n (faults s))"

definition empty_store :: "('c, 'v, 'k) DB" where
  "empty_store =
     \<lparr>id_rows = [], vulnerability_rows = [], metadata_rows = [], exclusion_rows = [],
      faults = [], executed = [], log_lines = [], conn = ConnOpen\<rparr>"

text \<open>
  \<open>outcomes n fs\<close> lists, for the next \<open>n\<close> database calls under the schedule \<open>fs\<close>, whether
  each one works.
\<close>

fun outcomes :: "nat \<Rightarrow> error option list \<Rightarrow> bool list" where
  "outcomes 0 fs = []"
| "outcomes (Suc n) [] = True # outcomes n []"
| "outcomes (Suc n) (f # fs) = (f = None) # outcomes n fs"

section \<open>Properties\<close>

subsection \<open>The CVSS and URL merges\<close>

lemma duplicate_found_iff: "duplicate_found c xs \<longleftrightarrow> c \<in> set xs"
  by (induction xs) (auto simp: deep_Equal_def)

lemma remdups_snoc:
  "remdups (xs @ [c]) = remdups (filter (\<lambda>x. x \<noteq> c) xs) @ [c]"
  by (induction xs) auto

lemma first_seen_Cons:
  "rev (remdups (rev (c # xs))) = c # rev (remdups (rev (filter (\<lambda>x. x \<noteq> c) xs)))"
  by (simp add: remdups_snoc rev_filter)

lemma merge_Cvss_eq:
  "merge_Cvss ex inc = ex @ rev (remdups (rev (filter (\<lambda>c. c \<notin> set ex) inc)))"
proof (induction inc arbitrary: ex)
  case Nil
  then show ?case by simp
next
  case (Cons c cs)
  show ?case
  proof (cases "c \<in> set ex")
    case True
    then show ?thesis using Cons.IH [of ex] by (simp add: duplicate_found_iff)
  next
    case False
    have "filter (\<lambda>c. c \<notin> set ex) (c # cs) = c # filter (\<lambda>c. c \<notin> set ex) cs"
      using False by simp
    then have "rev (remdups (rev (filter (\<lambda>c. c \<notin> set ex) (c # cs))))
          = c # rev (remdups (rev (filter (\<lambda>x. x \<notin> set (ex @ [c])) cs)))"
      by (simp only: first_seen_Cons) (simp add: conj_commute)
    then show ?thesis using False Cons.IH [of "ex @ [c]"]
      by (simp only: merge_Cvss.simps duplicate_found_iff) simp
  qed
qed

lemma merge_Cvss_distinct: "distinct ex \<Longrightarrow> distinct (merge_Cvss ex inc)"
  by (induction inc arbitrary: ex) (auto simp: duplicate_found_iff)

lemma merge_Cvss_set: "set (merge_Cvss ex inc) = set ex \<union> set inc"
  by (induction inc arbitrary: ex) (auto simp: duplicate_found_iff)

lemma merge_Cvss_absorb: "set inc \<subseteq> set ex \<Longrightarrow> merge_Cvss ex inc = ex"
  by (induction inc arbitrary: ex) (auto simp: duplicate_found_iff)

text \<open>
  Sorting a list of the members of a finite set, each once, gives the sorted list of the
  set, whatever the order of the list was.
\<close>

lemma sort_members:
  assumes "set xs = links" "distinct xs"
  shows "sort xs = sorted_list_of_set links"
proof -
  have "sorted_list_of_set (set xs) = sort (remdups xs)"
    by (rule sorted_list_of_set_sort_remdups)
  then show ?thesis using assms by (simp add: distinct_remdups_id)
qed

lemma merge_URLs_eq:
  assumes "lists_members toSlice"
  shows "merge_URLs toSlice ex inc = sorted_list_of_set (set ex \<union> set inc)"
proof -
  let ?links = "fold insert inc (set ex)"
  have l: "?links = set ex \<union> set inc"
    by (simp add: union_set_fold [symmetric] Un_commute)
  then have "finite ?links" by simp
  then have "set (toSlice ?links) = ?links" "distinct (toSlice ?links)"
    using assms by (simp_all add: lists_members_def)
  then have "sort (toSlice ?links) = sorted_list_of_set ?links"
    by (rule sort_members)
  then show ?thesis
    by (simp add: merge_URLs_def NewStringSetFromSlice_def sort_Strings_def l)
qed

subsection \<open>The database layer\<close>

lemma next_fault_tables [simp]:
  "id_rows (snd (next_fault s)) = id_rows s"
  "vulnerability_rows (snd (next_fault s)) = vulnerability_rows s"
  "metadata_rows (snd (next_fault s)) = metadata_rows s"
  "exclusion_rows (snd (next_fault s)) = exclusion_rows s"
  "executed (snd (next_fault s)) = executed s"
  "log_lines (snd (next_fault s)) = log_lines s"
  "conn (snd (next_fault s)) = conn s"
  "faults (snd (next_fault s)) = tl (faults s)"
  by (simp_all add: next_fault_def split: list.splits)

lemma next_fault_fst: "fst (next_fault s) = (case faults s of [] \<Rightarrow> None | f # fs \<Rightarrow> f)"
  by (simp add: next_fault_def split: list.splits)

lemma calls_work_Suc:
  "calls_work (Suc n) s \<longleftrightarrow> fst (next_fault s) = None \<and> calls_work n (snd (next_fault s))"
  by (cases "faults s") (simp_all add: calls_work_def next_fault_def)

lemma calls_work_0 [simp]: "calls_work 0 s"
  by (simp add: calls_work_def)

lemma calls_work_mono: "calls_work n s \<Longrightarrow> k \<le> n \<Longrightarrow> calls_work k s"
  unfolding calls_work_def list_all_iff
  by (metis set_take_subset_set_take subsetD)

lemma Find_works:
  "fst (next_fault s) = None \<Longrightarrow>
   Find tbl cond s
     = (snd (next_fault s), filter cond (tbl (snd (next_fault s))),
        \<lparr>Error = None, RowsAffected = int (length (filter cond (tbl (snd (next_fault s)))))\<rparr>)"
  by (cases "next_fault s") (simp add: Find_def Let_def)

lemma Find_fails:
  "fst (next_fault s) = Some e \<Longrightarrow>
   Find tbl cond s = (snd (next_fault s), [], \<lparr>Error = Some e, RowsAffected = 0\<rparr>)"
  by (cases "next_fault s") (simp add: Find_def)

lemma write_row_works:
  "fst (next_fault s) = None \<Longrightarrow>
   write_row upd s = (upd (snd (next_fault s)), \<lparr>Error = None, RowsAffected = 1\<rparr>)"
  by (cases "next_fault s") (simp add: write_row_def)

lemma write_row_fails:
  "fst (next_fault s) = Some e \<Longrightarrow>
   write_row upd s = (snd (next_fault s), \<lparr>Error = Some e, RowsAffected = 0\<rparr>)"
  by (cases "next_fault s") (simp add: write_row_def)

text \<open>What a lookup returns, from the rows that its condition selects.\<close>

lemma GetVulnerabilityMetadata_works:
  assumes "fst (next_fault s) = None"
  shows "GetVulnerabilityMetadata s i ns =
     (snd (next_fault s),
      (case filter (\<lambda>r. (i = [] \<or> ID r = i) \<and> (ns = [] \<or> Namespace r = ns)) (metadata_rows s) of
         [] \<Rightarrow> Inr None
       | [r] \<Rightarrow> Inr (Some r)
       | _ \<Rightarrow> Inl (MultipleMetadataRecords i ns)))"
  using assms
  by (simp add: GetVulnerabilityMetadata_def Find_works Inflate_def split: list.splits)

lemma GetVulnerabilityMetadata_fails:
  assumes "fst (next_fault s) = Some e"
  shows "GetVulnerabilityMetadata s i ns = (snd (next_fault s), Inl e)"
  using assms by (simp add: GetVulnerabilityMetadata_def Find_fails)

lemma GetVulnerabilityMetadata_state:
  "fst (GetVulnerabilityMetadata s i ns) = snd (next_fault s)"
  by (cases "fst (next_fault s)")
     (simp_all add: GetVulnerabilityMetadata_works GetVulnerabilityMetadata_fails)

text \<open>With both arguments non-empty the lookup is the exact match on the key.\<close>

lemma GetVulnerabilityMetadata_exact:
  assumes "fst (next_fault s) = None" "i \<noteq> []" "ns \<noteq> []"
  shows "GetVulnerabilityMetadata s i ns =
     (snd (next_fault s),
      (case stored_metadata s i ns of
         [] \<Rightarrow> Inr None
       | [r] \<Rightarrow> Inr (Some r)
       | _ \<Rightarrow> Inl (MultipleMetadataRecords i ns)))"
  using assms by (simp add: GetVulnerabilityMetadata_works stored_metadata_def)

text \<open>
  The record that a lookup returns, whatever the arguments were, is the one row stored
  under its own key.
\<close>

lemma filter_singleton_sub:
  assumes "filter P rows = [x]" "Q x" "\<And>r. Q r \<Longrightarrow> P r"
  shows "filter Q rows = [x]"
proof -
  have "filter Q (filter P rows) = filter (\<lambda>r. P r \<and> Q r) rows"
    by (rule filter_filter)
  also have "\<dots> = filter Q rows"
    by (rule filter_cong) (use assms(3) in auto)
  finally show ?thesis using assms(1,2) by simp
qed

lemma GetVulnerabilityMetadata_Some:
  assumes "snd (GetVulnerabilityMetadata s i ns) = Inr (Some existing)"
  shows "fst (next_fault s) = None"
    and "filter (\<lambda>r. (i = [] \<or> ID r = i) \<and> (ns = [] \<or> Namespace r = ns)) (metadata_rows s)
           = [existing]"
    and "stored_metadata s (ID existing) (Namespace existing) = [existing]"
proof -
  let ?P = "\<lambda>r. (i = [] \<or> ID r = i) \<and> (ns = [] \<or> Namespace r = ns)"
  show w: "fst (next_fault s) = None"
    using assms by (cases "fst (next_fault s)") (auto simp: GetVulnerabilityMetadata_fails)
  show f: "filter ?P (metadata_rows s) = [existing]"
    using assms GetVulnerabilityMetadata_works [OF w, of i ns]
    by (auto split: list.splits)
  have "existing \<in> set (filter ?P (metadata_rows s))" unfolding f by simp
  then have p: "?P existing" by simp
  have "filter (\<lambda>r. ID r = ID existing \<and> Namespace r = Namespace existing) (metadata_rows s)
      = [existing]"
    by (rule filter_singleton_sub [OF f]) (use p in auto)
  then show "stored_metadata s (ID existing) (Namespace existing) = [existing]"
    by (simp add: stored_metadata_def)
qed

lemma filter_map_replace:
  "P m \<Longrightarrow> filter P (map (\<lambda>r. if P r then m else r) rows) = map (\<lambda>_. m) (filter P rows)"
  by (induction rows) auto

lemma filter_map_keep:
  "P m \<Longrightarrow> filter (\<lambda>r. \<not> P r) (map (\<lambda>r. if P r then m else r) rows) = filter (\<lambda>r. \<not> P r) rows"
  by (induction rows) auto

lemma stored_after_save:
  assumes "stored_metadata s (ID m) (Namespace m) = [existing]"
    and "ID m \<noteq> []" "Namespace m \<noteq> []"
  shows "filter (\<lambda>r. ID r = ID m \<and> Namespace r = Namespace m) (save_rows m (metadata_rows s)) = [m]"
proof -
  let ?P = "\<lambda>r. ID r = ID m \<and> Namespace r = Namespace m"
  have ex: "list_ex (same_key m) (metadata_rows s)"
  proof -
    have "existing \<in> set (filter ?P (metadata_rows s))"
      using assms(1) by (simp add: stored_metadata_def)
    then have "existing \<in> set (metadata_rows s)" "same_key m existing"
      by (simp_all add: same_key_def)
    then show ?thesis unfolding list_ex_iff by blast
  qed
  have sk: "same_key m = (\<lambda>r. ?P r)" by (auto simp: same_key_def fun_eq_iff)
  have "filter ?P (map (\<lambda>r. if ?P r then m else r) (metadata_rows s))
        = map (\<lambda>_. m) (filter ?P (metadata_rows s))"
    by (rule filter_map_replace) simp
  also have "\<dots> = [m]" using assms(1) by (simp add: stored_metadata_def)
  finally show ?thesis using ex assms(2,3) by (simp add: save_rows_def sk)
qed

text \<open>
  In every case the rows under the key of the saved row are, after the save, that row alone
  or the rows that were there followed by it.
\<close>

lemma stored_after_any_save:
  assumes "stored_metadata s (ID m) (Namespace m) = [existing]"
  shows "filter (\<lambda>r. ID r = ID m \<and> Namespace r = Namespace m) (save_rows m (metadata_rows s))
           \<in> {[m], [existing, m]}"
proof (cases "ID m = [] \<or> Namespace m = []")
  case True
  then show ?thesis using assms by (auto simp: save_rows_def stored_metadata_def)
next
  case False
  then show ?thesis using stored_after_save [OF assms] by simp
qed

lemma other_keys_after_save:
  "filter (\<lambda>r. \<not> (ID r = ID m \<and> Namespace r = Namespace m)) (save_rows m rows)
    = filter (\<lambda>r. \<not> (ID r = ID m \<and> Namespace r = Namespace m)) rows"
proof -
  let ?P = "\<lambda>r. ID r = ID m \<and> Namespace r = Namespace m"
  have sk: "same_key m = ?P"
    by (auto simp: same_key_def fun_eq_iff)
  have "?P m" by simp
  then have "filter (\<lambda>r. \<not> ?P r) (map (\<lambda>r. if ?P r then m else r) rows) = filter (\<lambda>r. \<not> ?P r) rows"
    by (rule filter_map_keep)
  then show ?thesis
    unfolding save_rows_def sk
    by (cases "ID m = [] \<or> Namespace m = []"; cases "list_ex ?P rows") simp_all
qed

lemma save_same_row:
  assumes "stored_metadata s (ID m) (Namespace m) = [m]"
    and "ID m \<noteq> []" "Namespace m \<noteq> []"
  shows "save_rows m (metadata_rows s) = metadata_rows s"
proof -
  let ?P = "\<lambda>r. ID r = ID m \<and> Namespace r = Namespace m"
  have sk: "same_key m = ?P" by (auto simp: same_key_def fun_eq_iff)
  have f: "filter ?P (metadata_rows s) = [m]" using assms(1) by (simp add: stored_metadata_def)
  have all: "r = m" if "r \<in> set (metadata_rows s)" "?P r" for r
  proof -
    have "r \<in> set (filter ?P (metadata_rows s))" using that by simp
    then show ?thesis unfolding f by simp
  qed
  have "m \<in> set (filter ?P (metadata_rows s))" unfolding f by simp
  then have ex: "list_ex ?P (metadata_rows s)" unfolding list_ex_iff by auto
  have "map (\<lambda>r. if ?P r then m else r) (metadata_rows s) = metadata_rows s"
    by (rule map_idI) (use all in auto)
  then show ?thesis using ex assms(2,3) by (simp add: save_rows_def sk)
qed

subsection \<open>One incoming metadata record\<close>

lemma Add_single: "AddVulnerabilityMetadata toSlice s [m] = add_one_metadata toSlice s m"
  by (cases "add_one_metadata toSlice s m") (auto split: option.splits)

text \<open>
  What the merge writes: the record found, with the merged lists.
\<close>

lemma add_one_found:
  assumes l: "snd (GetVulnerabilityMetadata s (ID m) (Namespace m)) = Inr (Some existing)"
  shows "add_one_metadata toSlice s m =
     (if Severity existing \<noteq> Severity m
      then (snd (next_fault s),
            Some (MetadataConflict ''severity'' (Severity existing) (Severity m)))
      else if Description existing \<noteq> Description m
      then (snd (next_fault s),
            Some (MetadataConflict ''description'' (Description existing) (Description m)))
      else (case Save_metadata
                  (existing\<lparr>Cvss := merge_Cvss (Cvss existing) (Cvss m),
                            URLs := merge_URLs toSlice (URLs existing) (URLs m)\<rparr>)
                  (snd (next_fault s)) of
              (s2, result) \<Rightarrow>
                if RowsAffected result \<noteq> 1
                then (s2, Some (WriteMismatch ''merge vulnerability metadata''
                                  (RowsAffected result)))
                else (s2, Error result)))"
proof -
  have "GetVulnerabilityMetadata s (ID m) (Namespace m) = (snd (next_fault s), Inr (Some existing))"
    using l GetVulnerabilityMetadata_state [of s "ID m" "Namespace m"]
    by (simp add: prod_eq_iff)
  then show ?thesis
    by (simp add: add_one_metadata_def NewVulnerabilityMetadataModel_def Let_def)
qed

lemma add_one_merge:
  assumes l: "snd (GetVulnerabilityMetadata s (ID m) (Namespace m)) = Inr (Some existing)"
    and sev: "Severity existing = Severity m"
    and desc: "Description existing = Description m"
    and w: "calls_work 2 s"
  shows "add_one_metadata toSlice s m =
     ((snd (next_fault (snd (next_fault s))))
        \<lparr>metadata_rows :=
           save_rows (existing\<lparr>Cvss := merge_Cvss (Cvss existing) (Cvss m),
                               URLs := merge_URLs toSlice (URLs existing) (URLs m)\<rparr>)
             (metadata_rows s)\<rparr>, None)"
proof -
  have w2: "fst (next_fault (snd (next_fault s))) = None"
    using w by (simp add: numeral_2_eq_2 calls_work_Suc)
  show ?thesis
    using sev desc
    by (simp add: add_one_found [OF l] Save_metadata_def write_row_works [OF w2])
qed

lemma add_one_conflict:
  assumes l: "snd (GetVulnerabilityMetadata s (ID m) (Namespace m)) = Inr (Some existing)"
    and ne: "Severity existing \<noteq> Severity m \<or> Description existing \<noteq> Description m"
  shows "add_one_metadata toSlice s m =
     (snd (next_fault s),
      Some (if Severity existing \<noteq> Severity m
            then MetadataConflict ''severity'' (Severity existing) (Severity m)
            else MetadataConflict ''description'' (Description existing) (Description m)))"
  using ne by (auto simp: add_one_found [OF l])

lemma add_one_insert:
  assumes l: "snd (GetVulnerabilityMetadata s (ID m) (Namespace m)) = Inr None"
    and w: "calls_work 2 s"
  shows "add_one_metadata toSlice s m =
     ((snd (next_fault (snd (next_fault s))))\<lparr>metadata_rows := metadata_rows s @ [m]\<rparr>, None)"
proof -
  have w2: "fst (next_fault (snd (next_fault s))) = None"
    using w by (simp add: numeral_2_eq_2 calls_work_Suc)
  have "GetVulnerabilityMetadata s (ID m) (Namespace m) = (snd (next_fault s), Inr None)"
    using l GetVulnerabilityMetadata_state [of s "ID m" "Namespace m"]
    by (simp add: prod_eq_iff)
  then show ?thesis
    by (simp add: add_one_metadata_def Create_metadata_def write_row_works [OF w2]
        NewVulnerabilityMetadataModel_def Let_def)
qed

text \<open>
  The outcomes of one record: an error with the table unchanged, or success after a lookup
  and a write that both worked, the write being the insert of the record or the save of
  the merged record.
\<close>

lemma add_one_cases:
  "metadata_rows (fst (add_one_metadata toSlice s m)) = metadata_rows s \<and>
     snd (add_one_metadata toSlice s m) \<noteq> None
   \<or> snd (add_one_metadata toSlice s m) = None \<and> calls_work 2 s \<and>
      (case snd (GetVulnerabilityMetadata s (ID m) (Namespace m)) of
         Inr None \<Rightarrow> metadata_rows (fst (add_one_metadata toSlice s m)) = metadata_rows s @ [m]
       | Inr (Some existing) \<Rightarrow>
           Severity existing = Severity m \<and> Description existing = Description m \<and>
           metadata_rows (fst (add_one_metadata toSlice s m)) =
             save_rows (existing\<lparr>Cvss := merge_Cvss (Cvss existing) (Cvss m),
                               URLs := merge_URLs toSlice (URLs existing) (URLs m)\<rparr>)
               (metadata_rows s)
       | Inl err \<Rightarrow> False)"
proof (cases "snd (GetVulnerabilityMetadata s (ID m) (Namespace m))")
  case (Inl err)
  then have "GetVulnerabilityMetadata s (ID m) (Namespace m) = (snd (next_fault s), Inl err)"
    using GetVulnerabilityMetadata_state [of s "ID m" "Namespace m"] by (simp add: prod_eq_iff)
  then show ?thesis by (simp add: add_one_metadata_def)
next
  case (Inr found)
  show ?thesis
  proof (cases "fst (next_fault (snd (next_fault s)))")
    case None
    have w1: "fst (next_fault s) = None"
    proof (cases "fst (next_fault s)")
      case (Some e)
      then show ?thesis using Inr by (simp add: GetVulnerabilityMetadata_fails)
    qed simp
    have w: "calls_work 2 s" using w1 None by (simp add: numeral_2_eq_2 calls_work_Suc)
    show ?thesis
    proof (cases found)
      case None
      then show ?thesis using add_one_insert [of s m toSlice] Inr w by simp
    next
      case (Some existing)
      then have l: "snd (GetVulnerabilityMetadata s (ID m) (Namespace m)) = Inr (Some existing)"
        using Inr by simp
      show ?thesis
      proof (cases "Severity existing = Severity m \<and> Description existing = Description m")
        case True
        then show ?thesis using add_one_merge [OF l _ _ w, of toSlice] l w by simp
      next
        case False
        then show ?thesis using add_one_conflict [OF l, of toSlice] by auto
      qed
    qed
  next
    case (Some e)
    note w2 = this
    have g: "GetVulnerabilityMetadata s (ID m) (Namespace m) = (snd (next_fault s), Inr found)"
      using Inr GetVulnerabilityMetadata_state [of s "ID m" "Namespace m"]
      by (simp add: prod_eq_iff)
    show ?thesis
      by (simp add: add_one_metadata_def g Save_metadata_def Create_metadata_def
          write_row_fails [OF w2] NewVulnerabilityMetadataModel_def Let_def
          split: option.splits)
  qed
qed

subsection \<open>Claims about the merge policy\<close>

text \<open>
  For a record with a non-empty id and namespace, the merge into the record stored under
  its key: the call succeeds, the stored record gets the existing CVSS list followed by the
  incoming entries that are not in it, each once, in the order of their first occurrence,
  and the sorted union of the URLs; the rows under other keys are as before.
\<close>

lemma merge_stores_union:
  assumes st: "stored_metadata s (ID m) (Namespace m) = [existing]"
    and key: "ID m \<noteq> []" "Namespace m \<noteq> []"
    and sev: "Severity existing = Severity m"
    and desc: "Description existing = Description m"
    and w: "calls_work 2 s"
    and ts: "lists_members toSlice"
  shows "snd (AddVulnerabilityMetadata toSlice s [m]) = None \<and>
         stored_metadata (fst (AddVulnerabilityMetadata toSlice s [m])) (ID m) (Namespace m) =
           [existing\<lparr>Cvss := Cvss existing @
                        rev (remdups (rev (filter (\<lambda>c. c \<notin> set (Cvss existing)) (Cvss m)))),
                     URLs := sorted_list_of_set (set (URLs existing) \<union> set (URLs m))\<rparr>] \<and>
         filter (\<lambda>r. \<not> (ID r = ID m \<and> Namespace r = Namespace m))
             (metadata_rows (fst (AddVulnerabilityMetadata toSlice s [m])))
           = filter (\<lambda>r. \<not> (ID r = ID m \<and> Namespace r = Namespace m)) (metadata_rows s)"
proof -
  let ?merged = "existing\<lparr>Cvss := merge_Cvss (Cvss existing) (Cvss m),
                               URLs := merge_URLs toSlice (URLs existing) (URLs m)\<rparr>"
  have w1: "fst (next_fault s) = None" using w by (simp add: numeral_2_eq_2 calls_work_Suc)
  have l: "snd (GetVulnerabilityMetadata s (ID m) (Namespace m)) = Inr (Some existing)"
    using st by (simp add: GetVulnerabilityMetadata_exact [OF w1 key])
  have ekey: "ID existing = ID m" "Namespace existing = Namespace m"
  proof -
    have "existing \<in> set (stored_metadata s (ID m) (Namespace m))" using st by simp
    then show "ID existing = ID m" "Namespace existing = Namespace m"
      by (simp_all add: stored_metadata_def)
  qed
  have mkey: "ID ?merged = ID m" "Namespace ?merged = Namespace m" using ekey by simp_all
  have st': "stored_metadata s (ID ?merged) (Namespace ?merged) = [existing]"
    using st mkey by simp
  have a: "add_one_metadata toSlice s m =
     ((snd (next_fault (snd (next_fault s))))\<lparr>metadata_rows := save_rows ?merged (metadata_rows s)\<rparr>, None)"
    by (rule add_one_merge [OF l sev desc w])
  have "stored_metadata (fst (add_one_metadata toSlice s m)) (ID m) (Namespace m) = [?merged]"
    using stored_after_save [OF st'] mkey key by (simp add: a stored_metadata_def)
  moreover have "filter (\<lambda>r. \<not> (ID r = ID m \<and> Namespace r = Namespace m))
             (metadata_rows (fst (add_one_metadata toSlice s m)))
           = filter (\<lambda>r. \<not> (ID r = ID m \<and> Namespace r = Namespace m)) (metadata_rows s)"
    using other_keys_after_save [of ?merged "metadata_rows s"] mkey by (simp add: a)
  ultimately show ?thesis
    unfolding Add_single by (simp add: a merge_Cvss_eq merge_URLs_eq [OF ts])
qed

text \<open>
  Claim C3. The merge of an incoming record into the stored record with the same
  \<open>(ID, Namespace)\<close>, severity and description is what \<open>AddVulnerabilityMetadata\<close> does when
  id and namespace are non-empty (\<open>merge_stores_union\<close>). It is not what it does for every
  record: the lookup drops an empty namespace from its condition. From an empty store, add
  \<open>(CVE-1, "")\<close> with \<open>Cvss = [A]\<close>, \<open>URLs = ["http://x"]\<close> and then \<open>(CVE-1, nvd)\<close>; both are
  inserted. Adding \<open>(CVE-1, "")\<close> with the same severity and description, \<open>Cvss = [B]\<close> and
  \<open>URLs = ["http://y"]\<close> then looks up by id alone, finds both rows, and fails to verify the
  existing entry (multiple metadata records); nothing is merged and the table is unchanged.
\<close>

theorem merge_with_empty_namespace_fails:
  "AddVulnerabilityMetadata (\<lambda>links. rev (sorted_list_of_set links))
     (empty_store :: (string, unit, unit) DB)
     [\<lparr>ID = ''CVE-1'', Namespace = '''', Severity = ''High'', URLs = [''http://x''],
       Description = ''d'', Cvss = [''A'']\<rparr>,
      \<lparr>ID = ''CVE-1'', Namespace = ''nvd'', Severity = ''High'', URLs = [],
       Description = ''d'', Cvss = []\<rparr>]
   = (empty_store\<lparr>metadata_rows :=
        [\<lparr>ID = ''CVE-1'', Namespace = '''', Severity = ''High'', URLs = [''http://x''],
          Description = ''d'', Cvss = [''A'']\<rparr>,
         \<lparr>ID = ''CVE-1'', Namespace = ''nvd'', Severity = ''High'', URLs = [],
          Description = ''d'', Cvss = []\<rparr>]\<rparr>, None) \<and>
   AddVulnerabilityMetadata (\<lambda>links. rev (sorted_list_of_set links))
     (empty_store\<lparr>metadata_rows :=
        [\<lparr>ID = ''CVE-1'', Namespace = '''', Severity = ''High'', URLs = [''http://x''],
          Description = ''d'', Cvss = [''A'']\<rparr>,
         \<lparr>ID = ''CVE-1'', Namespace = ''nvd'', Severity = ''High'', URLs = [],
          Description = ''d'', Cvss = []\<rparr>]\<rparr> :: (string, unit, unit) DB)
     [\<lparr>ID = ''CVE-1'', Namespace = '''', Severity = ''High'', URLs = [''http://y''],
       Description = ''d'', Cvss = [''B'']\<rparr>]
   = (empty_store\<lparr>metadata_rows :=
        [\<lparr>ID = ''CVE-1'', Namespace = '''', Severity = ''High'', URLs = [''http://x''],
          Description = ''d'', Cvss = [''A'']\<rparr>,
         \<lparr>ID = ''CVE-1'', Namespace = ''nvd'', Severity = ''High'', URLs = [],
          Description = ''d'', Cvss = []\<rparr>]\<rparr>,
      Some (VerifyExistingFailed (MultipleMetadataRecords ''CVE-1'' '''')))"
  by code_simp

text \<open>
  Claim C4. A record whose severity or description differs from the one the lookup found is
  rejected with a \<open>MetadataConflict\<close> error and nothing is written (\<open>add_one_conflict\<close>). The
  rejection is not reached for every record whose \<open>(ID, Namespace)\<close> matches a stored record:
  the lookup drops an empty namespace from its condition. In the store that holds
  \<open>(CVE-1, "")\<close> with severity \<open>High\<close> and \<open>(CVE-1, nvd)\<close>, both inserted into an empty store,
  adding \<open>(CVE-1, "")\<close> with severity \<open>Low\<close> looks up by id alone, finds both rows, and
  fails to verify the existing entry (multiple metadata records) instead of reporting the
  conflict; the table is unchanged.
\<close>

theorem conflict_with_empty_namespace_not_reported:
  "AddVulnerabilityMetadata (\<lambda>links. rev (sorted_list_of_set links))
     (empty_store :: (string, unit, unit) DB)
     [\<lparr>ID = ''CVE-1'', Namespace = '''', Severity = ''High'', URLs = [],
       Description = ''d'', Cvss = []\<rparr>,
      \<lparr>ID = ''CVE-1'', Namespace = ''nvd'', Severity = ''High'', URLs = [],
       Description = ''d'', Cvss = []\<rparr>]
   = (empty_store\<lparr>metadata_rows :=
        [\<lparr>ID = ''CVE-1'', Namespace = '''', Severity = ''High'', URLs = [],
          Description = ''d'', Cvss = []\<rparr>,
         \<lparr>ID = ''CVE-1'', Namespace = ''nvd'', Severity = ''High'', URLs = [],
          Description = ''d'', Cvss = []\<rparr>]\<rparr>, None) \<and>
   AddVulnerabilityMetadata (\<lambda>links. rev (sorted_list_of_set links))
     (empty_store\<lparr>metadata_rows :=
        [\<lparr>ID = ''CVE-1'', Namespace = '''', Severity = ''High'', URLs = [],
          Description = ''d'', Cvss = []\<rparr>,
         \<lparr>ID = ''CVE-1'', Namespace = ''nvd'', Severity = ''High'', URLs = [],
          Description = ''d'', Cvss = []\<rparr>]\<rparr> :: (string, unit, unit) DB)
     [\<lparr>ID = ''CVE-1'', Namespace = '''', Severity = ''Low'', URLs = [],
       Description = ''d'', Cvss = []\<rparr>]
   = (empty_store\<lparr>metadata_rows :=
        [\<lparr>ID = ''CVE-1'', Namespace = '''', Severity = ''High'', URLs = [],
          Description = ''d'', Cvss = []\<rparr>,
         \<lparr>ID = ''CVE-1'', Namespace = ''nvd'', Severity = ''High'', URLs = [],
          Description = ''d'', Cvss = []\<rparr>]\<rparr>,
      Some (VerifyExistingFailed (MultipleMetadataRecords ''CVE-1'' '''')))"
  by code_simp

text \<open>
  Claim C9. Let the lookup of \<open>AddVulnerabilityMetadata\<close> for the incoming record \<open>m\<close> find the
  record \<open>existing\<close>, whose CVSS list has no two equal entries. Then after the call the store
  still holds a record under the key of \<open>existing\<close>, and no record under that key has two
  equal CVSS entries, whatever \<open>m.Cvss\<close> repeats and whether the call merged, was rejected
  or was failed by the database. When the merge goes through (same severity and
  description, lookup and save not failed, \<open>existing\<close> with a non-empty id and namespace), the
  call succeeds and the one record under the key holds the CVSS entries of \<open>existing\<close> and of
  \<open>m\<close> together, each once. The witness merges the incoming list \<open>[B, B, A]\<close> into \<open>[A]\<close> and
  stores \<open>[A, B]\<close>.
\<close>

theorem merged_Cvss_never_duplicates:
  assumes "snd (GetVulnerabilityMetadata s (ID m) (Namespace m)) = Inr (Some existing)"
    and "distinct (Cvss existing)"
  shows "stored_metadata (fst (AddVulnerabilityMetadata toSlice s [m]))
             (ID existing) (Namespace existing) \<noteq> [] \<and>
         (\<forall>r \<in> set (stored_metadata (fst (AddVulnerabilityMetadata toSlice s [m]))
                       (ID existing) (Namespace existing)). distinct (Cvss r)) \<and>
         (calls_work 2 s \<and> Severity existing = Severity m \<and> Description existing = Description m
            \<and> ID existing \<noteq> [] \<and> Namespace existing \<noteq> []
            \<longrightarrow> snd (AddVulnerabilityMetadata toSlice s [m]) = None \<and>
                (\<exists>r. stored_metadata (fst (AddVulnerabilityMetadata toSlice s [m]))
                        (ID existing) (Namespace existing) = [r]
                   \<and> distinct (Cvss r) \<and> set (Cvss r) = set (Cvss existing) \<union> set (Cvss m)))"
proof -
  let ?merged = "existing\<lparr>Cvss := merge_Cvss (Cvss existing) (Cvss m),
                               URLs := merge_URLs toSlice (URLs existing) (URLs m)\<rparr>"
  let ?s' = "fst (add_one_metadata toSlice s m)"
  let ?K = "\<lambda>r. ID r = ID existing \<and> Namespace r = Namespace existing"
  note l = assms(1)
  have st: "stored_metadata s (ID existing) (Namespace existing) = [existing]"
    using GetVulnerabilityMetadata_Some(3) [OF l] .
  have st': "stored_metadata s (ID ?merged) (Namespace ?merged) = [existing]"
    using st by simp
  have dm: "distinct (Cvss ?merged)" using assms(2) by (simp add: merge_Cvss_distinct)
  have sm: "set (Cvss ?merged) = set (Cvss existing) \<union> set (Cvss m)"
    by (simp add: merge_Cvss_set)
  have any: "filter ?K (save_rows ?merged (metadata_rows s)) \<in> {[?merged], [existing, ?merged]}"
    using stored_after_any_save [OF st'] by simp
  have after: "stored_metadata ?s' (ID existing) (Namespace existing)
      \<in> {[existing], [?merged], [existing, ?merged]}"
    using add_one_cases [of toSlice s m]
  proof (elim disjE conjE)
    assume "metadata_rows ?s' = metadata_rows s"
    then show ?thesis using st by (simp add: stored_metadata_def)
  next
    assume "case snd (GetVulnerabilityMetadata s (ID m) (Namespace m)) of
         Inr None \<Rightarrow> metadata_rows ?s' = metadata_rows s @ [m]
       | Inr (Some existing) \<Rightarrow>
           Severity existing = Severity m \<and> Description existing = Description m \<and>
           metadata_rows ?s' =
             save_rows (existing\<lparr>Cvss := merge_Cvss (Cvss existing) (Cvss m),
                               URLs := merge_URLs toSlice (URLs existing) (URLs m)\<rparr>)
               (metadata_rows s)
       | Inl err \<Rightarrow> False"
    then have "metadata_rows ?s' = save_rows ?merged (metadata_rows s)"
      using l by simp
    then show ?thesis using any by (simp add: stored_metadata_def)
  qed
  have first: "stored_metadata ?s' (ID existing) (Namespace existing) \<noteq> []"
    "\<forall>r \<in> set (stored_metadata ?s' (ID existing) (Namespace existing)). distinct (Cvss r)"
    using after dm assms(2) by auto
  have second: "snd (add_one_metadata toSlice s m) = None \<and>
      (\<exists>r. stored_metadata ?s' (ID existing) (Namespace existing) = [r]
                   \<and> distinct (Cvss r) \<and> set (Cvss r) = set (Cvss existing) \<union> set (Cvss m))"
    if "calls_work 2 s" "Severity existing = Severity m" "Description existing = Description m"
      "ID existing \<noteq> []" "Namespace existing \<noteq> []"
  proof -
    have a: "add_one_metadata toSlice s m =
       ((snd (next_fault (snd (next_fault s))))
          \<lparr>metadata_rows := save_rows ?merged (metadata_rows s)\<rparr>, None)"
      by (rule add_one_merge [OF l that(2) that(3) that(1)])
    have "filter ?K (save_rows ?merged (metadata_rows s)) = [?merged]"
      using stored_after_save [OF st'] that(4,5) by simp
    then have "stored_metadata ?s' (ID existing) (Namespace existing) = [?merged]"
      by (simp add: a stored_metadata_def)
    then show ?thesis using a dm sm by simp
  qed
  show ?thesis
    unfolding Add_single using first second by blast
qed

theorem merged_Cvss_never_duplicates_witness:
  "snd (GetVulnerabilityMetadata
     (empty_store\<lparr>metadata_rows :=
        [\<lparr>ID = ''CVE-1'', Namespace = ''nvd'', Severity = ''High'', URLs = [''http://x''],
          Description = ''d'', Cvss = [''A'']\<rparr>]\<rparr> :: (string, unit, unit) DB)
     ''CVE-1'' ''nvd'')
   = Inr (Some \<lparr>ID = ''CVE-1'', Namespace = ''nvd'', Severity = ''High'', URLs = [''http://x''],
          Description = ''d'', Cvss = [''A'']\<rparr>) \<and>
   distinct [''A''] \<and>
   calls_work 2
     (empty_store\<lparr>metadata_rows :=
        [\<lparr>ID = ''CVE-1'', Namespace = ''nvd'', Severity = ''High'', URLs = [''http://x''],
          Description = ''d'', Cvss = [''A'']\<rparr>]\<rparr> :: (string, unit, unit) DB) \<and>
   AddVulnerabilityMetadata (\<lambda>links. rev (sorted_list_of_set links))
        (empty_store\<lparr>metadata_rows :=
           [\<lparr>ID = ''CVE-1'', Namespace = ''nvd'', Severity = ''High'', URLs = [''http://x''],
             Description = ''d'', Cvss = [''A'']\<rparr>]\<rparr> :: (string, unit, unit) DB)
        [\<lparr>ID = ''CVE-1'', Namespace = ''nvd'', Severity = ''High'', URLs = [''http://x''],
          Description = ''d'', Cvss = [''B'', ''B'', ''A'']\<rparr>]
   = (empty_store\<lparr>metadata_rows :=
           [\<lparr>ID = ''CVE-1'', Namespace = ''nvd'', Severity = ''High'', URLs = [''http://x''],
             Description = ''d'', Cvss = [''A'', ''B'']\<rparr>]\<rparr>,
      None)"
proof -
  let ?e = "\<lparr>ID = ''CVE-1'', Namespace = ''nvd'', Severity = ''High'', URLs = [''http://x''],
          Description = ''d'', Cvss = [''A'']\<rparr>"
  let ?m = "\<lparr>ID = ''CVE-1'', Namespace = ''nvd'', Severity = ''High'', URLs = [''http://x''],
          Description = ''d'', Cvss = [''B'', ''B'', ''A'']\<rparr>"
  let ?s = "empty_store\<lparr>metadata_rows := [?e]\<rparr> :: (string, unit, unit) DB"
  let ?toSlice = "\<lambda>links :: string set. rev (sorted_list_of_set links)"
  have h0: "snd (GetVulnerabilityMetadata ?s ''CVE-1'' ''nvd'') = Inr (Some ?e)" by code_simp
  then have h1: "snd (GetVulnerabilityMetadata ?s (ID ?m) (Namespace ?m)) = Inr (Some ?e)"
    by simp
  have h2: "distinct (Cvss ?e)" by simp
  have h3: "calls_work 2 ?s" by (simp add: calls_work_def empty_store_def)
  have st: "fst (AddVulnerabilityMetadata ?toSlice ?s [?m]) =
      empty_store\<lparr>metadata_rows :=
           [\<lparr>ID = ''CVE-1'', Namespace = ''nvd'', Severity = ''High'', URLs = [''http://x''],
             Description = ''d'', Cvss = [''A'', ''B'']\<rparr>]\<rparr>"
    by code_simp
  have "snd (AddVulnerabilityMetadata ?toSlice ?s [?m]) = None"
    using merged_Cvss_never_duplicates [OF h1 h2, of ?toSlice] h3 by simp
  then have r: "AddVulnerabilityMetadata ?toSlice ?s [?m] =
      (empty_store\<lparr>metadata_rows :=
           [\<lparr>ID = ''CVE-1'', Namespace = ''nvd'', Severity = ''High'', URLs = [''http://x''],
             Description = ''d'', Cvss = [''A'', ''B'']\<rparr>]\<rparr>, None)"
    using st by (simp add: prod_eq_iff del: AddVulnerabilityMetadata.simps)
  have d: "distinct [''A'']" by simp
  show ?thesis by (intro conjI h0 d h3 r)
qed

text \<open>
  A record that the store already holds in full is absorbed: when the record stored under
  the (non-empty) key has the same severity and description, holds every incoming CVSS
  entry and URL, and has its URLs sorted and without duplicates, adding the incoming record
  leaves the table as it is.
\<close>

lemma add_absorbed:
  assumes st: "stored_metadata s (ID m) (Namespace m) = [r]"
    and key: "ID m \<noteq> []" "Namespace m \<noteq> []"
    and sev: "Severity r = Severity m" and desc: "Description r = Description m"
    and cv: "set (Cvss m) \<subseteq> set (Cvss r)"
    and ur: "set (URLs m) \<subseteq> set (URLs r)" "sorted (URLs r)" "distinct (URLs r)"
    and ts: "lists_members toSlice"
  shows "metadata_rows (fst (add_one_metadata toSlice s m)) = metadata_rows s \<and>
         (calls_work 2 s \<longrightarrow> snd (add_one_metadata toSlice s m) = None)"
proof -
  have rkey: "ID r = ID m" "Namespace r = Namespace m"
  proof -
    have "r \<in> set (stored_metadata s (ID m) (Namespace m))" using st by simp
    then show "ID r = ID m" "Namespace r = Namespace m"
      by (simp_all add: stored_metadata_def)
  qed
  have "set (URLs r) \<union> set (URLs m) = set (URLs r)" using ur(1) by auto
  then have u: "merge_URLs toSlice (URLs r) (URLs m) = URLs r"
    using ur(2,3) by (simp add: merge_URLs_eq [OF ts] sorted_list_of_set.idem_if_sorted_distinct)
  have c: "merge_Cvss (Cvss r) (Cvss m) = Cvss r" using cv by (rule merge_Cvss_absorb)
  have same: "r\<lparr>Cvss := merge_Cvss (Cvss r) (Cvss m),
                 URLs := merge_URLs toSlice (URLs r) (URLs m)\<rparr> = r"
    by (simp add: u c)
  have sv: "save_rows r (metadata_rows s) = metadata_rows s"
    using st key rkey save_same_row [of s r] by simp
  have l: "snd (GetVulnerabilityMetadata s (ID m) (Namespace m)) = Inr (Some r)"
    if "calls_work 2 s"
  proof -
    have "fst (next_fault s) = None" using that by (simp add: numeral_2_eq_2 calls_work_Suc)
    then show ?thesis using st by (simp add: GetVulnerabilityMetadata_exact key)
  qed
  have rows: "metadata_rows (fst (add_one_metadata toSlice s m)) = metadata_rows s"
    using add_one_cases [of toSlice s m]
  proof (elim disjE conjE)
    assume "snd (add_one_metadata toSlice s m) = None" and w: "calls_work 2 s"
      and c: "case snd (GetVulnerabilityMetadata s (ID m) (Namespace m)) of
         Inr None \<Rightarrow> metadata_rows (fst (add_one_metadata toSlice s m)) = metadata_rows s @ [m]
       | Inr (Some existing) \<Rightarrow>
           Severity existing = Severity m \<and> Description existing = Description m \<and>
           metadata_rows (fst (add_one_metadata toSlice s m)) =
             save_rows (existing\<lparr>Cvss := merge_Cvss (Cvss existing) (Cvss m),
                               URLs := merge_URLs toSlice (URLs existing) (URLs m)\<rparr>)
               (metadata_rows s)
       | Inl err \<Rightarrow> False"
    show ?thesis using c l [OF w] same sv by simp
  qed simp
  have "snd (add_one_metadata toSlice s m) = None" if "calls_work 2 s"
    using add_one_merge [OF l [OF that] sev desc that, of toSlice] by simp
  then show ?thesis using rows by blast
qed

text \<open>
  Claim C2, amended. Let \<open>m\<close> have a non-empty id and namespace, and let a first
  \<open>AddVulnerabilityMetadata\<close> of \<open>m\<close> succeed, where either the store held a record under the key
  of \<open>m\<close> whose CVSS list has no two equal entries (the first add merged), or it held none
  and \<open>m.URLs\<close> is sorted and without duplicates and \<open>m.Cvss\<close> has no two equal entries (the
  first add inserted). Then the store holds one record under the key, its \<open>Cvss\<close> and \<open>URLs\<close>
  have no duplicates, and adding \<open>m\<close> again leaves the metadata table as the single add left
  it; the second add succeeds when the database fails neither its lookup nor its save.
\<close>

theorem metadata_add_twice:
  assumes first: "AddVulnerabilityMetadata toSlice s [m] = (s1, None)"
    and key: "ID m \<noteq> []" "Namespace m \<noteq> []"
    and ts: "lists_members toSlice"
    and fresh: "stored_metadata s (ID m) (Namespace m) = [] \<longrightarrow>
                  sorted (URLs m) \<and> distinct (URLs m) \<and> distinct (Cvss m)"
    and old: "\<forall>e \<in> set (stored_metadata s (ID m) (Namespace m)). distinct (Cvss e)"
  shows "\<exists>r. stored_metadata s1 (ID m) (Namespace m) = [r] \<and>
             distinct (Cvss r) \<and> distinct (URLs r) \<and>
             metadata_rows (fst (AddVulnerabilityMetadata toSlice s1 [m])) = metadata_rows s1 \<and>
             (calls_work 2 s1 \<longrightarrow> snd (AddVulnerabilityMetadata toSlice s1 [m]) = None)"
proof -
  have f1: "add_one_metadata toSlice s m = (s1, None)" using first unfolding Add_single .
  have s1: "s1 = fst (add_one_metadata toSlice s m)" using f1 by simp
  have w: "calls_work 2 s"
    and c: "case snd (GetVulnerabilityMetadata s (ID m) (Namespace m)) of
         Inr None \<Rightarrow> metadata_rows s1 = metadata_rows s @ [m]
       | Inr (Some existing) \<Rightarrow>
           Severity existing = Severity m \<and> Description existing = Description m \<and>
           metadata_rows s1 =
             save_rows (existing\<lparr>Cvss := merge_Cvss (Cvss existing) (Cvss m),
                               URLs := merge_URLs toSlice (URLs existing) (URLs m)\<rparr>)
               (metadata_rows s)
       | Inl err \<Rightarrow> False"
    unfolding s1 using add_one_cases [of toSlice s m] f1 by simp_all
  have w1: "fst (next_fault s) = None" using w by (simp add: numeral_2_eq_2 calls_work_Suc)
  have lk: "snd (GetVulnerabilityMetadata s (ID m) (Namespace m)) =
      (case stored_metadata s (ID m) (Namespace m) of
         [] \<Rightarrow> Inr None
       | [r] \<Rightarrow> Inr (Some r)
       | _ \<Rightarrow> Inl (MultipleMetadataRecords (ID m) (Namespace m)))"
    by (simp add: GetVulnerabilityMetadata_exact [OF w1 key])
  have "\<exists>r. stored_metadata s1 (ID m) (Namespace m) = [r] \<and>
             Severity r = Severity m \<and> Description r = Description m \<and>
             set (Cvss m) \<subseteq> set (Cvss r) \<and> set (URLs m) \<subseteq> set (URLs r) \<and>
             sorted (URLs r) \<and> distinct (URLs r) \<and> distinct (Cvss r)"
  proof (cases "stored_metadata s (ID m) (Namespace m)")
    case Nil
    then have "metadata_rows s1 = metadata_rows s @ [m]" using c lk by simp
    then have "stored_metadata s1 (ID m) (Namespace m) = [m]"
      using Nil by (simp add: stored_metadata_def)
    then show ?thesis using fresh Nil by simp
  next
    case (Cons existing rest)
    then have st: "stored_metadata s (ID m) (Namespace m) = [existing]"
      using c lk by (cases rest) simp_all
    let ?merged = "existing\<lparr>Cvss := merge_Cvss (Cvss existing) (Cvss m),
                               URLs := merge_URLs toSlice (URLs existing) (URLs m)\<rparr>"
    have ekey: "ID existing = ID m" "Namespace existing = Namespace m"
    proof -
      have "existing \<in> set (stored_metadata s (ID m) (Namespace m))" using st by simp
      then show "ID existing = ID m" "Namespace existing = Namespace m"
        by (simp_all add: stored_metadata_def)
    qed
    have st': "stored_metadata s (ID ?merged) (Namespace ?merged) = [existing]"
      using st ekey by simp
    have rows: "metadata_rows s1 = save_rows ?merged (metadata_rows s)"
      and eq: "Severity existing = Severity m" "Description existing = Description m"
      using c lk st by simp_all
    have "stored_metadata s1 (ID m) (Namespace m) = [?merged]"
      using stored_after_save [OF st'] ekey key by (simp add: stored_metadata_def rows)
    moreover have "distinct (Cvss existing)" using old st by simp
    ultimately show ?thesis
      using eq by (simp add: merge_Cvss_set merge_Cvss_distinct merge_URLs_eq [OF ts])
  qed
  then obtain r where r: "stored_metadata s1 (ID m) (Namespace m) = [r]"
      "Severity r = Severity m" "Description r = Description m"
      "set (Cvss m) \<subseteq> set (Cvss r)" "set (URLs m) \<subseteq> set (URLs r)"
      "sorted (URLs r)" "distinct (URLs r)" "distinct (Cvss r)"
    by blast
  show ?thesis
    unfolding Add_single
    using add_absorbed [OF r(1) key r(2-7) ts] r(1,7,8) by blast
qed

text \<open>
  Claim C2 as stated fails for a record that is inserted as new: an insert stores the record
  verbatim, and only the merge sorts the URLs and looks for equal CVSS entries. Adding
  a record with \<open>URLs = ["http://y", "http://x"]\<close> and \<open>Cvss = [A, A]\<close> to an empty store
  stores just that; adding it again stores \<open>URLs = ["http://x", "http://y"]\<close>, which differs
  from the single add, and \<open>Cvss = [A, A]\<close>, which has a duplicate.
\<close>

theorem metadata_add_twice_counterexample:
  "AddVulnerabilityMetadata (\<lambda>links. rev (sorted_list_of_set links))
     (empty_store :: (string, unit, unit) DB)
     [\<lparr>ID = ''CVE-1'', Namespace = ''nvd'', Severity = ''High'',
       URLs = [''http://y'', ''http://x''], Description = ''d'', Cvss = [''A'', ''A'']\<rparr>]
   = (empty_store\<lparr>metadata_rows :=
        [\<lparr>ID = ''CVE-1'', Namespace = ''nvd'', Severity = ''High'',
          URLs = [''http://y'', ''http://x''], Description = ''d'', Cvss = [''A'', ''A'']\<rparr>]\<rparr>,
      None) \<and>
   AddVulnerabilityMetadata (\<lambda>links. rev (sorted_list_of_set links))
     (empty_store\<lparr>metadata_rows :=
        [\<lparr>ID = ''CVE-1'', Namespace = ''nvd'', Severity = ''High'',
          URLs = [''http://y'', ''http://x''], Description = ''d'', Cvss = [''A'', ''A'']\<rparr>]\<rparr>
      :: (string, unit, unit) DB)
     [\<lparr>ID = ''CVE-1'', Namespace = ''nvd'', Severity = ''High'',
       URLs = [''http://y'', ''http://x''], Description = ''d'', Cvss = [''A'', ''A'']\<rparr>]
   = (empty_store\<lparr>metadata_rows :=
        [\<lparr>ID = ''CVE-1'', Namespace = ''nvd'', Severity = ''High'',
          URLs = [''http://x'', ''http://y''], Description = ''d'', Cvss = [''A'', ''A'']\<rparr>]\<rparr>,
      None) \<and>
   [''http://x'', ''http://y''] \<noteq> [''http://y'', ''http://x''] \<and>
   \<not> distinct [''A'', ''A'']"
  by code_simp

theorem metadata_add_twice_witness:
  "AddVulnerabilityMetadata (\<lambda>links. rev (sorted_list_of_set links))
     (empty_store :: (string, unit, unit) DB)
     [\<lparr>ID = ''CVE-1'', Namespace = ''nvd'', Severity = ''High'',
       URLs = [''http://x'', ''http://y''], Description = ''d'', Cvss = [''A'', ''B'']\<rparr>]
   = (empty_store\<lparr>metadata_rows :=
        [\<lparr>ID = ''CVE-1'', Namespace = ''nvd'', Severity = ''High'',
          URLs = [''http://x'', ''http://y''], Description = ''d'', Cvss = [''A'', ''B'']\<rparr>]\<rparr>,
      None) \<and>
   ''CVE-1'' \<noteq> [] \<and> ''nvd'' \<noteq> [] \<and>
   lists_members (\<lambda>links. rev (sorted_list_of_set links)) \<and>
   stored_metadata (empty_store :: (string, unit, unit) DB) ''CVE-1'' ''nvd'' = [] \<and>
   sorted [''http://x'', ''http://y''] \<and> distinct [''http://x'', ''http://y''] \<and>
   distinct [''A'', ''B''] \<and>
   calls_work 2
     (empty_store\<lparr>metadata_rows :=
        [\<lparr>ID = ''CVE-1'', Namespace = ''nvd'', Severity = ''High'',
          URLs = [''http://x'', ''http://y''], Description = ''d'', Cvss = [''A'', ''B'']\<rparr>]\<rparr>
      :: (string, unit, unit) DB) \<and>
   AddVulnerabilityMetadata (\<lambda>links. rev (sorted_list_of_set links))
     (empty_store\<lparr>metadata_rows :=
        [\<lparr>ID = ''CVE-1'', Namespace = ''nvd'', Severity = ''High'',
          URLs = [''http://x'', ''http://y''], Description = ''d'', Cvss = [''A'', ''B'']\<rparr>]\<rparr>
      :: (string, unit, unit) DB)
     [\<lparr>ID = ''CVE-1'', Namespace = ''nvd'', Severity = ''High'',
       URLs = [''http://x'', ''http://y''], Description = ''d'', Cvss = [''A'', ''B'']\<rparr>]
   = (empty_store\<lparr>metadata_rows :=
        [\<lparr>ID = ''CVE-1'', Namespace = ''nvd'', Severity = ''High'',
          URLs = [''http://x'', ''http://y''], Description = ''d'', Cvss = [''A'', ''B'']\<rparr>]\<rparr>,
      None)"
proof -
  let ?m = "\<lparr>ID = ''CVE-1'', Namespace = ''nvd'', Severity = ''High'',
       URLs = [''http://x'', ''http://y''], Description = ''d'', Cvss = [''A'', ''B'']\<rparr>"
  let ?s = "empty_store :: (string, unit, unit) DB"
  let ?s1 = "empty_store\<lparr>metadata_rows := [?m]\<rparr> :: (string, unit, unit) DB"
  let ?toSlice = "\<lambda>links :: string set. rev (sorted_list_of_set links)"
  have h1: "AddVulnerabilityMetadata ?toSlice ?s [?m] = (?s1, None)" by code_simp
  have k: "ID ?m \<noteq> []" "Namespace ?m \<noteq> []" by simp_all
  have k': "''CVE-1'' \<noteq> []" "''nvd'' \<noteq> []" by simp_all
  have ts: "lists_members ?toSlice" by (simp add: lists_members_def)
  have e: "stored_metadata ?s (ID ?m) (Namespace ?m) = []"
    by (simp add: stored_metadata_def empty_store_def)
  have srt: "sorted [''http://x'', ''http://y'']" by code_simp
  have h2: "stored_metadata ?s (ID ?m) (Namespace ?m) = [] \<longrightarrow>
                  sorted (URLs ?m) \<and> distinct (URLs ?m) \<and> distinct (Cvss ?m)"
    using srt by simp
  have h3: "\<forall>e \<in> set (stored_metadata ?s (ID ?m) (Namespace ?m)). distinct (Cvss e)"
    using e by simp
  have w: "calls_work 2 ?s1" by (simp add: calls_work_def empty_store_def)
  have rest: "fst (AddVulnerabilityMetadata ?toSlice ?s1 [?m]) = ?s1"
    by code_simp
  have "snd (AddVulnerabilityMetadata ?toSlice ?s1 [?m]) = None"
    using metadata_add_twice [OF h1 k ts h2 h3] w by blast
  then have h4: "AddVulnerabilityMetadata ?toSlice ?s1 [?m] = (?s1, None)"
    using rest by (simp add: prod_eq_iff del: AddVulnerabilityMetadata.simps)
  have e': "stored_metadata ?s ''CVE-1'' ''nvd'' = []" using e by simp
  have d: "distinct [''http://x'', ''http://y'']" "distinct [''A'', ''B'']" by simp_all
  show ?thesis
    by (intro conjI h1 k' ts e' srt d w h4)
qed

subsection \<open>Claim about the namespaces\<close>

text \<open>
  Claim C5, amended. When the database does not fail the query, \<open>GetVulnerabilityNamespaces\<close>
  returns, without error and without repetition, the \<open>Namespace\<close> values that occur among
  the metadata rows of the store.
\<close>

theorem namespaces_from_metadata:
  "calls_work 1 s \<Longrightarrow>
     (\<exists>s' names. GetVulnerabilityNamespaces s = (s', names, None) \<and>
        set names = Namespace ` set (metadata_rows s) \<and> distinct names)"
proof -
  assume "calls_work 1 s"
  then have w: "fst (next_fault s) = None" by (simp add: calls_work_Suc)
  have "GetVulnerabilityNamespaces s
      = (snd (next_fault s), remdups (map Namespace (metadata_rows (snd (next_fault s)))), None)"
    using w by (cases "next_fault s") (simp add: GetVulnerabilityNamespaces_def)
  then show ?thesis by simp
qed

theorem namespaces_from_metadata_witness:
  "calls_work 1
     (empty_store\<lparr>metadata_rows :=
        [\<lparr>ID = ''CVE-1'', Namespace = ''nvd'', Severity = ''High'', URLs = [],
          Description = ''d'', Cvss = []\<rparr>,
         \<lparr>ID = ''CVE-2'', Namespace = ''nvd'', Severity = ''Low'', URLs = [],
          Description = ''e'', Cvss = []\<rparr>]\<rparr> :: (string, unit, unit) DB) \<and>
   GetVulnerabilityNamespaces
     (empty_store\<lparr>metadata_rows :=
        [\<lparr>ID = ''CVE-1'', Namespace = ''nvd'', Severity = ''High'', URLs = [],
          Description = ''d'', Cvss = []\<rparr>,
         \<lparr>ID = ''CVE-2'', Namespace = ''nvd'', Severity = ''Low'', URLs = [],
          Description = ''e'', Cvss = []\<rparr>]\<rparr> :: (string, unit, unit) DB)
   = (empty_store\<lparr>metadata_rows :=
        [\<lparr>ID = ''CVE-1'', Namespace = ''nvd'', Severity = ''High'', URLs = [],
          Description = ''d'', Cvss = []\<rparr>,
         \<lparr>ID = ''CVE-2'', Namespace = ''nvd'', Severity = ''Low'', URLs = [],
          Description = ''e'', Cvss = []\<rparr>]\<rparr>, [''nvd''], None)"
proof -
  let ?s = "empty_store\<lparr>metadata_rows :=
        [\<lparr>ID = ''CVE-1'', Namespace = ''nvd'', Severity = ''High'', URLs = [],
          Description = ''d'', Cvss = []\<rparr>,
         \<lparr>ID = ''CVE-2'', Namespace = ''nvd'', Severity = ''Low'', URLs = [],
          Description = ''e'', Cvss = []\<rparr>]\<rparr> :: (string, unit, unit) DB"
  have w: "calls_work 1 ?s" by (simp add: calls_work_def empty_store_def)
  have r: "GetVulnerabilityNamespaces ?s = (?s, [''nvd''], None)" by code_simp
  show ?thesis using namespaces_from_metadata [OF w] w r by simp
qed

text \<open>
  Claim C5 as stated fails: the query reads the metadata table, not the vulnerability
  table. A store with one vulnerability row in the namespace \<open>github:language:idris\<close> and
  no metadata row returns no namespace.
\<close>

theorem namespaces_counterexample:
  "GetVulnerabilityNamespaces
     (empty_store\<lparr>vulnerability_rows :=
        [\<lparr>VulnID = ''CVE-1'', VulnNamespace = ''github:language:idris'',
          PackageName = ''my-package'', VersionConstraint = ''< 2.0''\<rparr>]\<rparr>
      :: (unit, Vulnerability, unit) DB)
   = (empty_store\<lparr>vulnerability_rows :=
        [\<lparr>VulnID = ''CVE-1'', VulnNamespace = ''github:language:idris'',
          PackageName = ''my-package'', VersionConstraint = ''< 2.0''\<rparr>]\<rparr>, [], None) \<and>
   set (map VulnNamespace
     (vulnerability_rows (empty_store\<lparr>vulnerability_rows :=
        [\<lparr>VulnID = ''CVE-1'', VulnNamespace = ''github:language:idris'',
          PackageName = ''my-package'', VersionConstraint = ''< 2.0''\<rparr>]\<rparr>
      :: (unit, Vulnerability, unit) DB)))
   = {''github:language:idris''} \<and>
   set ([] :: string list) \<noteq> {''github:language:idris''}"
  by (simp add: GetVulnerabilityNamespaces_def next_fault_def empty_store_def)

subsection \<open>Claim about the identity record\<close>

text \<open>
  Claim C6. \<open>SetID\<close> is to replace the identity rows by the one given, so that \<open>GetID\<close>
  returns the last value set and the store holds one identity row. It drops the outcome of
  its find and delete, and tests only the rows affected by its insert. With one identity
  row stored and a database that fails the find, nothing is found and nothing deleted, the
  insert works, and \<open>SetID\<close> reports success: the store then holds two identity rows, no
  write-mismatch error was returned, and \<open>GetID\<close> fails with the multiple-identities error.
\<close>

theorem SetID_after_failed_find:
  "SetID (empty_store\<lparr>id_rows := [\<lparr>BuildTimestamp = ''2023-12-31'', SchemaVersion = 4\<rparr>],
                      faults := [Some (BackendError ''database is locked'')]\<rparr>
        :: (unit, unit, unit) DB) \<lparr>BuildTimestamp = ''2024-02-02'', SchemaVersion = 5\<rparr>
     = (empty_store\<lparr>id_rows := [\<lparr>BuildTimestamp = ''2023-12-31'', SchemaVersion = 4\<rparr>,
                                  \<lparr>BuildTimestamp = ''2024-02-02'', SchemaVersion = 5\<rparr>]\<rparr>, None) \<and>
   length [\<lparr>BuildTimestamp = ''2023-12-31'', SchemaVersion = 4\<rparr>,
           \<lparr>BuildTimestamp = ''2024-02-02'', SchemaVersion = 5\<rparr>] \<noteq> 1 \<and>
   GetID (empty_store\<lparr>id_rows := [\<lparr>BuildTimestamp = ''2023-12-31'', SchemaVersion = 4\<rparr>,
                                  \<lparr>BuildTimestamp = ''2024-02-02'', SchemaVersion = 5\<rparr>]\<rparr>
        :: (unit, unit, unit) DB)
     = (empty_store\<lparr>id_rows := [\<lparr>BuildTimestamp = ''2023-12-31'', SchemaVersion = 4\<rparr>,
                                  \<lparr>BuildTimestamp = ''2024-02-02'', SchemaVersion = 5\<rparr>]\<rparr>,
        Inl MultipleIdentityRecords)"
  by code_simp

subsection \<open>Claim about Close\<close>

lemma Exec_effect:
  "executed (fst (Exec stmt s)) = executed s @ [(stmt, hd (faults s @ [None]) = None)]"
  "faults (fst (Exec stmt s)) = tl (faults s)"
  "id_rows (fst (Exec stmt s)) = id_rows s"
  "vulnerability_rows (fst (Exec stmt s)) = vulnerability_rows s"
  "metadata_rows (fst (Exec stmt s)) = metadata_rows s"
  "exclusion_rows (fst (Exec stmt s)) = exclusion_rows s"
  by (simp_all add: Exec_def next_fault_def split: list.splits option.splits)

lemma log_line_effect [simp]:
  "executed (log_line l s) = executed s"
  "faults (log_line l s) = faults s"
  "id_rows (log_line l s) = id_rows s"
  "vulnerability_rows (log_line l s) = vulnerability_rows s"
  "metadata_rows (log_line l s) = metadata_rows s"
  "exclusion_rows (log_line l s) = exclusion_rows s"
  "conn (log_line l s) = conn s"
  by (simp_all add: log_line_def)

lemma length_outcomes [simp]: "length (outcomes n fs) = n"
  by (induction n fs rule: outcomes.induct) simp_all

lemma outcomes_Suc: "outcomes (Suc n) fs = (hd (fs @ [None]) = None) # outcomes n (tl fs)"
  by (cases fs) simp_all

lemma outcomes_add: "outcomes (n + k) fs = outcomes n fs @ outcomes k (drop n fs)"
  by (induction n fs rule: outcomes.induct) simp_all

lemma apply_statements_step:
  "apply_statements (stmt # rest) s =
     apply_statements rest
       (log_line (case fst (next_fault s) of
                    Some err \<Rightarrow> WarnStatement ''failed to apply memory optimization'' stmt err
                  | None \<Rightarrow> DebugStatement ''applied memory optimization'' stmt)
          (fst (Exec stmt s)))"
  by (simp add: Exec_def next_fault_def split: list.splits option.splits)

lemma next_fault_works_iff:
  "fst (next_fault s) = None \<longleftrightarrow> hd (faults s @ [None]) = None"
  by (simp add: next_fault_def split: list.splits)

lemma apply_statements_effect:
  "executed (apply_statements stmts s)
     = executed s @ zip stmts (outcomes (length stmts) (faults s)) \<and>
   faults (apply_statements stmts s) = drop (length stmts) (faults s) \<and>
   id_rows (apply_statements stmts s) = id_rows s \<and>
   vulnerability_rows (apply_statements stmts s) = vulnerability_rows s \<and>
   metadata_rows (apply_statements stmts s) = metadata_rows s \<and>
   exclusion_rows (apply_statements stmts s) = exclusion_rows s"
proof (induction stmts arbitrary: s)
  case Nil
  then show ?case by simp
next
  case (Cons stmt rest)
  let ?l = "case fst (next_fault s) of
                    Some err \<Rightarrow> WarnStatement ''failed to apply memory optimization'' stmt err
                  | None \<Rightarrow> DebugStatement ''applied memory optimization'' stmt"
  let ?s' = "log_line ?l (fst (Exec stmt s))"
  have f: "faults ?s' = tl (faults s)" by (simp add: Exec_effect)
  have e: "executed ?s' = executed s @ [(stmt, hd (faults s @ [None]) = None)]"
    by (simp add: Exec_effect)
  have t: "id_rows ?s' = id_rows s" "vulnerability_rows ?s' = vulnerability_rows s"
    "metadata_rows ?s' = metadata_rows s" "exclusion_rows ?s' = exclusion_rows s"
    by (simp_all add: Exec_effect)
  have o: "zip (stmt # rest) (outcomes (length (stmt # rest)) (faults s))
      = (stmt, hd (faults s @ [None]) = None) # zip rest (outcomes (length rest) (tl (faults s)))"
    by (simp add: outcomes_Suc del: outcomes.simps)
  have d: "drop (length (stmt # rest)) (faults s) = drop (length rest) (tl (faults s))"
    by (simp add: drop_Suc)
  show ?case
    unfolding apply_statements_step o d
    using Cons.IH [of ?s'] unfolding f e t by simp
qed

text \<open>
  Claim C8. For every store and every schedule of database failures, \<open>Close\<close> returns no
  error. The four compaction settings and then the reclaim pass \<open>VACUUM;\<close> are all run, in
  this order, and each takes effect or not according to its own database call only: a
  setting that fails stops neither the later settings nor the reclaim pass. The tables are
  left as they were. The witness is a run in which the first and third setting and the
  reclaim pass fail.
\<close>

theorem Close_never_fails:
  "snd (Close s) = None \<and>
   executed (fst (Close s))
     = executed s @ zip (memoryEfficientStatements @ [''VACUUM;'']) (outcomes 5 (faults s)) \<and>
   id_rows (fst (Close s)) = id_rows s \<and>
   vulnerability_rows (fst (Close s)) = vulnerability_rows s \<and>
   metadata_rows (fst (Close s)) = metadata_rows s \<and>
   exclusion_rows (fst (Close s)) = exclusion_rows s"
proof -
  let ?s0 = "log_line (Debug ''optimizing database settings for memory-efficient VACUUM'') s"
  let ?s1 = "apply_statements memoryEfficientStatements ?s0"
  let ?s2 = "log_line (Debug ''starting database VACUUM operation'') ?s1"
  let ?s3 = "fst (Exec ''VACUUM;'' ?s2)"
  let ?s4 = "log_line (Debug ''database VACUUM operation completed'') ?s3"
  let ?s5 = "if sql_DB ?s4 \<noteq> None then sqlDB_Close ?s4 else ?s4"
  have len: "length memoryEfficientStatements = 4" by (simp add: memoryEfficientStatements_def)
  have c: "Close s = (?s5, None)"
    by (simp add: Close_def Let_def)
  have closing: "executed (sqlDB_Close x) = executed x" "id_rows (sqlDB_Close x) = id_rows x"
    "vulnerability_rows (sqlDB_Close x) = vulnerability_rows x"
    "metadata_rows (sqlDB_Close x) = metadata_rows x"
    "exclusion_rows (sqlDB_Close x) = exclusion_rows x" for x :: "('a, 'b, 'c) DB"
    by (simp_all add: sqlDB_Close_def next_fault_def split: list.splits option.splits)
  have last: "executed ?s5 = executed ?s3" "id_rows ?s5 = id_rows ?s3"
    "vulnerability_rows ?s5 = vulnerability_rows ?s3"
    "metadata_rows ?s5 = metadata_rows ?s3"
    "exclusion_rows ?s5 = exclusion_rows ?s3"
    by (cases "sql_DB ?s4 \<noteq> None"; simp add: closing)+
  have a: "executed ?s1 = executed s @ zip memoryEfficientStatements (outcomes 4 (faults s))"
    and f: "faults ?s1 = drop 4 (faults s)"
    and t: "id_rows ?s1 = id_rows s" "vulnerability_rows ?s1 = vulnerability_rows s"
      "metadata_rows ?s1 = metadata_rows s" "exclusion_rows ?s1 = exclusion_rows s"
    using apply_statements_effect [of memoryEfficientStatements ?s0] by (simp_all add: len)
  have o: "outcomes 5 (faults s) = outcomes 4 (faults s) @ outcomes 1 (drop 4 (faults s))"
    using outcomes_add [of 4 1 "faults s"] by simp
  have v: "outcomes 1 (drop 4 (faults s)) = [fst (next_fault ?s2) = None]"
    by (simp add: next_fault_works_iff f outcomes_Suc del: outcomes.simps(2,3))
  have e3: "executed ?s3 = executed s @ zip (memoryEfficientStatements @ [''VACUUM;'']) (outcomes 5 (faults s))"
    unfolding o v by (simp add: Exec_effect a len next_fault_works_iff)
  have t3: "id_rows ?s3 = id_rows s" "vulnerability_rows ?s3 = vulnerability_rows s"
      "metadata_rows ?s3 = metadata_rows s" "exclusion_rows ?s3 = exclusion_rows s"
    by (simp_all add: Exec_effect t)
  show ?thesis
    unfolding c fst_conv snd_conv last e3 t3 by simp
qed

theorem Close_never_fails_witness:
  "Close (empty_store\<lparr>faults := [Some (BackendError ''disk I/O error''), None,
                                   Some (BackendError ''database is locked''), None,
                                   Some (BackendError ''disk full'')]\<rparr> :: (unit, unit, unit) DB)
   = (empty_store\<lparr>
        executed := [(''PRAGMA cache_size = -32768'', False),
                     (''PRAGMA temp_store = FILE'', True),
                     (''PRAGMA mmap_size = 67108864'', False),
                     (''PRAGMA journal_mode = TRUNCATE'', True),
                     (''VACUUM;'', False)],
        log_lines := [Debug ''optimizing database settings for memory-efficient VACUUM'',
                      WarnStatement ''failed to apply memory optimization''
                        ''PRAGMA cache_size = -32768'' (BackendError ''disk I/O error''),
                      DebugStatement ''applied memory optimization'' ''PRAGMA temp_store = FILE'',
                      WarnStatement ''failed to apply memory optimization''
                        ''PRAGMA mmap_size = 67108864'' (BackendError ''database is locked''),
                      DebugStatement ''applied memory optimization''
                        ''PRAGMA journal_mode = TRUNCATE'',
                      Debug ''starting database VACUUM operation'',
                      Debug ''database VACUUM operation completed''],
        conn := ConnClosed\<rparr>, None)"
proof -
  let ?s = "empty_store\<lparr>faults := [Some (BackendError ''disk I/O error''), None,
                                   Some (BackendError ''database is locked''), None,
                                   Some (BackendError ''disk full'')]\<rparr> :: (unit, unit, unit) DB"
  have "snd (Close ?s) = None" using Close_never_fails [of ?s] by blast
  moreover have "fst (Close ?s) = empty_store\<lparr>
        executed := [(''PRAGMA cache_size = -32768'', False),
                     (''PRAGMA temp_store = FILE'', True),
                     (''PRAGMA mmap_size = 67108864'', False),
                     (''PRAGMA journal_mode = TRUNCATE'', True),
                     (''VACUUM;'', False)],
        log_lines := [Debug ''optimizing database settings for memory-efficient VACUUM'',
                      WarnStatement ''failed to apply memory optimization''
                        ''PRAGMA cache_size = -32768'' (BackendError ''disk I/O error''),
                      DebugStatement ''applied memory optimization'' ''PRAGMA temp_store = FILE'',
                      WarnStatement ''failed to apply memory optimization''
                        ''PRAGMA mmap_size = 67108864'' (BackendError ''database is locked''),
                      DebugStatement ''applied memory optimization''
                        ''PRAGMA journal_mode = TRUNCATE'',
                      Debug ''starting database VACUUM operation'',
                      Debug ''database VACUUM operation completed''],
        conn := ConnClosed\<rparr>"
    by code_simp
  ultimately show ?thesis by (simp add: prod_eq_iff)
qed

subsection \<open>Claim about the match exclusions\<close>

lemma inflate_exclusions_acc:
  "inflate_exclusions inflate models acc =
     (case inflate_exclusions inflate models [] of
        Inl err \<Rightarrow> Inl err
      | Inr exclusions \<Rightarrow> Inr (acc @ exclusions))"
proof (induction models arbitrary: acc)
  case Nil
  then show ?case by simp
next
  case (Cons m models)
  show ?case
  proof (cases "inflate m")
    case (Inl err)
    then show ?thesis by simp
  next
    case (Inr x)
    show ?thesis
    proof (cases x)
      case None
      then show ?thesis using Inr Cons.IH [of acc] by simp
    next
      case (Some exclusion)
      then show ?thesis
        using Inr Cons.IH [of "acc @ [exclusion]"] Cons.IH [of "[exclusion]"]
        by (simp split: sum.splits)
    qed
  qed
qed

lemma inflate_exclusions_skips_nil:
  "inflate_exclusions inflate (filter (\<lambda>r. inflate r \<noteq> Inr None) models) acc
     = inflate_exclusions inflate models acc"
  by (induction models arbitrary: acc) (auto split: sum.splits option.splits)

lemma inflate_exclusions_no_error:
  assumes "\<forall>r \<in> set models. \<exists>x. inflate r = Inr x"
  shows "inflate_exclusions inflate models acc =
     Inr (acc @ concat (map (\<lambda>r. case inflate r of Inr (Some x) \<Rightarrow> [x] | _ \<Rightarrow> []) models))"
  using assms
proof (induction models arbitrary: acc)
  case Nil
  then show ?case by simp
next
  case (Cons m models)
  then obtain x where x: "inflate m = Inr x" by auto
  show ?case using Cons x by (cases x) auto
qed

text \<open>
  Claim C10. For every \<open>Inflate\<close>, store and id, \<open>GetVulnerabilityMatchExclusion\<close> returns the same
  list and the same error as on the store without the rows that inflate to nil, so such a
  row gives neither an error nor an entry. When the database does not fail the query and no
  row with the id fails to inflate, it returns, without error and in row order, exactly
  the values that the rows with the id inflate to, the nil ones left out.
\<close>

theorem nil_exclusions_omitted:
  "snd (GetVulnerabilityMatchExclusion inflate s i)
     = snd (GetVulnerabilityMatchExclusion inflate
         (s\<lparr>exclusion_rows := filter (\<lambda>r. inflate r \<noteq> Inr None) (exclusion_rows s)\<rparr>) i) \<and>
   (calls_work 1 s \<and>
    (\<forall>r \<in> set (exclusion_rows s). ExclusionID r = i \<longrightarrow> (\<exists>x. inflate r = Inr x)) \<longrightarrow>
      snd (GetVulnerabilityMatchExclusion inflate s i)
        = (concat (map (\<lambda>r. case inflate r of Inr (Some x) \<Rightarrow> [x] | _ \<Rightarrow> [])
                     (filter (\<lambda>r. ExclusionID r = i) (exclusion_rows s))), None))"
proof (intro conjI impI)
  let ?s' = "s\<lparr>exclusion_rows := filter (\<lambda>r. inflate r \<noteq> Inr None) (exclusion_rows s)\<rparr>"
  have nf: "next_fault ?s' = (fst (next_fault s),
      (snd (next_fault s))\<lparr>exclusion_rows := filter (\<lambda>r. inflate r \<noteq> Inr None) (exclusion_rows s)\<rparr>)"
    by (simp add: next_fault_def split: list.splits)
  have fl: "filter (\<lambda>r. ExclusionID r = i) (filter (\<lambda>r. inflate r \<noteq> Inr None) rows)
      = filter (\<lambda>r. inflate r \<noteq> Inr None) (filter (\<lambda>r. ExclusionID r = i) rows)" for rows
    by (simp add: conj_commute)
  show "snd (GetVulnerabilityMatchExclusion inflate s i)
     = snd (GetVulnerabilityMatchExclusion inflate ?s' i)"
  proof (cases "fst (next_fault s)")
    case None
    then have w': "fst (next_fault ?s') = None" by (simp add: nf)
    have "inflate_exclusions inflate
            (filter (\<lambda>r. ExclusionID r = i)
               (filter (\<lambda>r. inflate r \<noteq> Inr None) (exclusion_rows s))) []
        = inflate_exclusions inflate (filter (\<lambda>r. ExclusionID r = i) (exclusion_rows s)) []"
      unfolding fl by (rule inflate_exclusions_skips_nil)
    then show ?thesis
      by (simp add: GetVulnerabilityMatchExclusion_def Find_works [OF None] Find_works [OF w'] nf
          split: sum.splits)
  next
    case (Some e)
    then have "fst (next_fault ?s') = Some e" by (simp add: nf)
    then show ?thesis
      using Some by (simp add: GetVulnerabilityMatchExclusion_def Find_fails)
  qed
next
  assume a: "calls_work 1 s \<and>
    (\<forall>r \<in> set (exclusion_rows s). ExclusionID r = i \<longrightarrow> (\<exists>x. inflate r = Inr x))"
  then have w: "fst (next_fault s) = None" by (simp add: calls_work_Suc)
  have "\<forall>r \<in> set (filter (\<lambda>r. ExclusionID r = i) (exclusion_rows s)). \<exists>x. inflate r = Inr x"
    using a by simp
  then show "snd (GetVulnerabilityMatchExclusion inflate s i)
        = (concat (map (\<lambda>r. case inflate r of Inr (Some x) \<Rightarrow> [x] | _ \<Rightarrow> [])
                     (filter (\<lambda>r. ExclusionID r = i) (exclusion_rows s))), None)"
    using w inflate_exclusions_no_error [of "filter (\<lambda>r. ExclusionID r = i) (exclusion_rows s)" inflate "[]"]
    by (simp add: GetVulnerabilityMatchExclusion_def Find_works)
qed

theorem nil_exclusions_omitted_witness:
  "calls_work 1
     (empty_store\<lparr>exclusion_rows :=
        [\<lparr>ExclusionID = ''CVE-1'', Constraints = ''usable''\<rparr>,
         \<lparr>ExclusionID = ''CVE-1'', Constraints = ''unknown field''\<rparr>,
         \<lparr>ExclusionID = ''CVE-2'', Constraints = ''usable''\<rparr>]\<rparr> :: (unit, unit, string) DB) \<and>
   GetVulnerabilityMatchExclusion
     (\<lambda>r. if Constraints r = ''usable'' then Inr (Some (ExclusionID r, Constraints r))
           else Inr None)
     (empty_store\<lparr>exclusion_rows :=
        [\<lparr>ExclusionID = ''CVE-1'', Constraints = ''usable''\<rparr>,
         \<lparr>ExclusionID = ''CVE-1'', Constraints = ''unknown field''\<rparr>,
         \<lparr>ExclusionID = ''CVE-2'', Constraints = ''usable''\<rparr>]\<rparr> :: (unit, unit, string) DB)
     ''CVE-1''
   = (empty_store\<lparr>exclusion_rows :=
        [\<lparr>ExclusionID = ''CVE-1'', Constraints = ''usable''\<rparr>,
         \<lparr>ExclusionID = ''CVE-1'', Constraints = ''unknown field''\<rparr>,
         \<lparr>ExclusionID = ''CVE-2'', Constraints = ''usable''\<rparr>]\<rparr>,
      [(''CVE-1'', ''usable'')], None)"
proof -
  let ?s = "empty_store\<lparr>exclusion_rows :=
        [\<lparr>ExclusionID = ''CVE-1'', Constraints = ''usable''\<rparr>,
         \<lparr>ExclusionID = ''CVE-1'', Constraints = ''unknown field''\<rparr>,
         \<lparr>ExclusionID = ''CVE-2'', Constraints = ''usable''\<rparr>]\<rparr> :: (unit, unit, string) DB"
  let ?inflate = "\<lambda>r :: string VulnerabilityMatchExclusionModel.
      if Constraints r = ''usable''
      then (Inr (Some (ExclusionID r, Constraints r)) :: error + (string \<times> string) option)
      else Inr None"
  have w: "calls_work 1 ?s" by (simp add: calls_work_def empty_store_def)
  have ok: "\<forall>r \<in> set (exclusion_rows ?s). ExclusionID r = ''CVE-1'' \<longrightarrow> (\<exists>x. ?inflate r = Inr x)"
    by simp
  have st: "fst (GetVulnerabilityMatchExclusion ?inflate ?s ''CVE-1'') = ?s"
    by (simp add: GetVulnerabilityMatchExclusion_def Find_def next_fault_def empty_store_def
        Let_def)
  have "snd (GetVulnerabilityMatchExclusion ?inflate ?s ''CVE-1'')
      = (concat (map (\<lambda>r. case ?inflate r of Inr (Some x) \<Rightarrow> [x] | _ \<Rightarrow> [])
                     (filter (\<lambda>r. ExclusionID r = ''CVE-1'') (exclusion_rows ?s))), None)"
    using nil_exclusions_omitted [of ?inflate ?s "''CVE-1''"] w ok by blast
  then have "snd (GetVulnerabilityMatchExclusion ?inflate ?s ''CVE-1'')
      = ([(''CVE-1'', ''usable'')], None)"
    by (simp add: empty_store_def)
  then have r: "GetVulnerabilityMatchExclusion ?inflate ?s ''CVE-1''
      = (?s, [(''CVE-1'', ''usable'')], None)"
    using st by (simp add: prod_eq_iff)
  show ?thesis by (intro conjI w r)
qed

subsection \<open>Claims about DiffStore\<close>

lemma flatten_diffs_acc:
  "fold (\<lambda>(k, diff) allDiffs. allDiffs @ [diff]) m acc = acc @ map snd m"
  by (induction m arbitrary: acc) (auto split: prod.splits)

lemma flatten_diffs_eq: "flatten_diffs m = map snd m"
  by (simp add: flatten_diffs_def flatten_diffs_acc)

lemma merge_diffs_Cons:
  "merge_diffs ((k, d) # md) vd = merge_diffs md (AList.update k d vd)"
  by (simp add: merge_diffs_def)

lemma merge_diffs_Nil: "merge_diffs [] vd = vd"
  by (simp add: merge_diffs_def)

lemma merge_diffs_distinct:
  "distinct (map fst vd) \<Longrightarrow> distinct (map fst (merge_diffs md vd))"
proof (induction md arbitrary: vd)
  case Nil
  then show ?case by (simp add: merge_diffs_Nil)
next
  case (Cons e md)
  obtain k d where e: "e = (k, d)" by (cases e)
  show ?case
    unfolding e merge_diffs_Cons
    by (rule Cons.IH) (simp add: AList.distinct_update Cons.prems)
qed

lemma merge_diffs_lookup:
  "distinct (map fst md) \<Longrightarrow>
     map_of (merge_diffs md vd) k =
       (case map_of md k of Some d \<Rightarrow> Some d | None \<Rightarrow> map_of vd k)"
proof (induction md arbitrary: vd)
  case Nil
  then show ?case by (simp add: merge_diffs_Nil)
next
  case (Cons e md)
  obtain k' d where e: "e = (k', d)" by (cases e)
  have dm: "distinct (map fst md)" and nk: "k' \<notin> fst ` set md"
    using Cons.prems by (simp_all add: e)
  have none: "map_of md k' = None" using nk by (simp add: map_of_eq_None_iff)
  show ?case
    unfolding e merge_diffs_Cons Cons.IH [OF dm]
    using none by (simp add: AList.update_conv' split: option.splits)
qed

lemma merge_diffs_keys:
  "fst ` set (merge_diffs md vd) = fst ` set vd \<union> fst ` set md"
proof (induction md arbitrary: vd)
  case Nil
  then show ?case by (simp add: merge_diffs_Nil)
next
  case (Cons e md)
  obtain k d where e: "e = (k, d)" by (cases e)
  show ?case
    unfolding e merge_diffs_Cons Cons.IH by (auto simp: AList.dom_update)
qed

lemma single_entry:
  "distinct (map fst l) \<Longrightarrow> map_of l k = Some v \<Longrightarrow> filter (\<lambda>e. fst e = k) l = [(k, v)]"
proof (induction l)
  case Nil
  then show ?case by simp
next
  case (Cons e l)
  obtain k' d where e: "e = (k', d)" by (cases e)
  show ?case
  proof (cases "k' = k")
    case True
    then have "k \<notin> fst ` set l" using Cons.prems(1) e by simp
    then have "filter (\<lambda>e. fst e = k) l = []" by (auto simp: filter_empty_conv)
    then show ?thesis using True Cons.prems(2) e by simp
  next
    case False
    then show ?thesis using Cons e by simp
  qed
qed

lemma trackDiff_items [simp]:
  "diffItems (rows_Increment t) = diffItems t" "diffItems (set_stage n t) = diffItems t"
  "rowsProgress (set_stage n t) = rowsProgress t"
  by (simp_all add: rows_Increment_def set_stage_def)

lemma DiffStore_success:
  assumes "reader_GetAllVulnerabilities targetStore = Inr targetVulns"
    and "GetAllVulnerabilities s = (s1, Inr baseVulns)"
    and "diffV baseVulns targetVulns (build baseVulns) (build targetVulns)
           (diffItems (trackDiff 7)) = (vulnDiffs, items1)"
    and "GetAllVulnerabilityMetadata s1 = (s2, Inr baseMetadata)"
    and "reader_GetAllVulnerabilityMetadata targetStore = Inr targetMetadata"
    and "diffM baseMetadata targetMetadata (build baseVulns) (build targetVulns) items1
           = (metaDiffs, items2)"
  shows "DiffStore build diffV diffM s targetStore =
     (\<lparr>stager_Current = ''comparing metadata'',
       rowsProgress = \<lparr>current = 4, total = 7, completed = True\<rparr>,
       diffItems = items2\<lparr>completed := True\<rparr>\<rparr>,
      s2, Inr (map snd (merge_diffs metaDiffs vulnDiffs)))"
  using assms
  by (simp add: DiffStore_def Let_def flatten_diffs_eq trackDiff_def rows_Increment_def
      set_stage_def Increment_def SetCompleted_def)

text \<open>
  Claim C1, amended. When the four reads succeed and both stages produce an entry for the
  same key (each stage's result being a map, that is, without repeated keys), the changeset
  that \<open>DiffStore\<close> returns is the list of the entries of the merged map, the merged map has
  no repeated key, and its single entry for that key is the metadata-stage entry, whole:
  kind, reasons and packages are those of the metadata stage.
\<close>

theorem DiffStore_metadata_entry_replaces:
  assumes "reader_GetAllVulnerabilities targetStore = Inr targetVulns"
    and "GetAllVulnerabilities s = (s1, Inr baseVulns)"
    and "diffV baseVulns targetVulns (build baseVulns) (build targetVulns)
           (diffItems (trackDiff 7)) = (vulnDiffs, items1)"
    and "GetAllVulnerabilityMetadata s1 = (s2, Inr baseMetadata)"
    and "reader_GetAllVulnerabilityMetadata targetStore = Inr targetMetadata"
    and "diffM baseMetadata targetMetadata (build baseVulns) (build targetVulns) items1
           = (metaDiffs, items2)"
    and "distinct (map fst vulnDiffs)" and "distinct (map fst metaDiffs)"
    and "map_of vulnDiffs k = Some vulnDiff" and "map_of metaDiffs k = Some metaDiff"
  shows "snd (snd (DiffStore build diffV diffM s targetStore))
           = Inr (map snd (merge_diffs metaDiffs vulnDiffs)) \<and>
         distinct (map fst (merge_diffs metaDiffs vulnDiffs)) \<and>
         filter (\<lambda>e. fst e = k) (merge_diffs metaDiffs vulnDiffs) = [(k, metaDiff)]"
proof -
  have d: "distinct (map fst (merge_diffs metaDiffs vulnDiffs))"
    using assms(7) by (rule merge_diffs_distinct)
  have "map_of (merge_diffs metaDiffs vulnDiffs) k = Some metaDiff"
    using merge_diffs_lookup [OF assms(8), of vulnDiffs k] assms(10) by simp
  then have "filter (\<lambda>e. fst e = k) (merge_diffs metaDiffs vulnDiffs) = [(k, metaDiff)]"
    using d by (rule single_entry [rotated])
  then show ?thesis
    using DiffStore_success [where build = build and diffV = diffV and diffM = diffM,
        OF assms(1-6)] d by simp
qed

theorem DiffStore_metadata_entry_replaces_witness:
  "distinct (map fst
     [(''CVE-1/nvd'', \<lparr>DiffID = ''CVE-1'', DiffNamespace = ''nvd'', Kind = Added,
                        Reasons = [''vulnerability added''], Packages = [''my-package'']\<rparr>),
      (''CVE-2/nvd'', \<lparr>DiffID = ''CVE-2'', DiffNamespace = ''nvd'', Kind = Removed,
                        Reasons = [''vulnerability removed''], Packages = [''other'']\<rparr>)]) \<and>
   distinct (map fst
     [(''CVE-1/nvd'', \<lparr>DiffID = ''CVE-1'', DiffNamespace = ''nvd'', Kind = Changed,
                        Reasons = [''severity changed''], Packages = [''my-package'']\<rparr>)]) \<and>
   snd (snd (DiffStore (\<lambda>vulns. ())
     (\<lambda>baseVulns targetVulns basePkgs targetPkgs items.
        ([(''CVE-1/nvd'', \<lparr>DiffID = ''CVE-1'', DiffNamespace = ''nvd'', Kind = Added,
                        Reasons = [''vulnerability added''], Packages = [''my-package'']\<rparr>),
          (''CVE-2/nvd'', \<lparr>DiffID = ''CVE-2'', DiffNamespace = ''nvd'', Kind = Removed,
                        Reasons = [''vulnerability removed''], Packages = [''other'']\<rparr>)],
         Increment (Increment items)))
     (\<lambda>baseMetadata targetMetadata basePkgs targetPkgs items.
        ([(''CVE-1/nvd'', \<lparr>DiffID = ''CVE-1'', DiffNamespace = ''nvd'', Kind = Changed,
                        Reasons = [''severity changed''], Packages = [''my-package'']\<rparr>)],
         Increment items))
     (empty_store :: (string, Vulnerability, unit) DB)
     \<lparr>reader_GetAllVulnerabilities = Inr [], reader_GetAllVulnerabilityMetadata = Inr []\<rparr>))
   = Inr [\<lparr>DiffID = ''CVE-1'', DiffNamespace = ''nvd'', Kind = Changed,
            Reasons = [''severity changed''], Packages = [''my-package'']\<rparr>,
          \<lparr>DiffID = ''CVE-2'', DiffNamespace = ''nvd'', Kind = Removed,
            Reasons = [''vulnerability removed''], Packages = [''other'']\<rparr>]"
proof -
  let ?dv = "\<lparr>DiffID = ''CVE-1'', DiffNamespace = ''nvd'', Kind = Added,
                        Reasons = [''vulnerability added''], Packages = [''my-package'']\<rparr>"
  let ?dv2 = "\<lparr>DiffID = ''CVE-2'', DiffNamespace = ''nvd'', Kind = Removed,
                        Reasons = [''vulnerability removed''], Packages = [''other'']\<rparr>"
  let ?dm = "\<lparr>DiffID = ''CVE-1'', DiffNamespace = ''nvd'', Kind = Changed,
                        Reasons = [''severity changed''], Packages = [''my-package'']\<rparr>"
  let ?vd = "[(''CVE-1/nvd'', ?dv), (''CVE-2/nvd'', ?dv2)]"
  let ?md = "[(''CVE-1/nvd'', ?dm)]"
  let ?build = "\<lambda>vulns :: Vulnerability list. ()"
  let ?diffV = "\<lambda>(baseVulns :: Vulnerability list) (targetVulns :: Vulnerability list)
      (basePkgs :: unit) (targetPkgs :: unit) items. (?vd, Increment (Increment items))"
  let ?diffM = "\<lambda>(baseMetadata :: string VulnerabilityMetadata list)
      (targetMetadata :: string VulnerabilityMetadata list)
      (basePkgs :: unit) (targetPkgs :: unit) items. (?md, Increment items)"
  let ?s = "empty_store :: (string, Vulnerability, unit) DB"
  let ?t = "\<lparr>reader_GetAllVulnerabilities = Inr [], reader_GetAllVulnerabilityMetadata = Inr []\<rparr>
      :: (string, Vulnerability) StoreReader"
  have h1: "reader_GetAllVulnerabilities ?t = Inr []" by simp
  have h2: "GetAllVulnerabilities ?s = (?s, Inr [])" by code_simp
  have h3: "?diffV [] [] (?build []) (?build []) (diffItems (trackDiff 7))
      = (?vd, Increment (Increment (diffItems (trackDiff 7))))" by simp
  have h4: "GetAllVulnerabilityMetadata ?s = (?s, Inr [])" by code_simp
  have h5: "reader_GetAllVulnerabilityMetadata ?t = Inr []" by simp
  have h6: "?diffM [] [] (?build []) (?build []) (Increment (Increment (diffItems (trackDiff 7))))
      = (?md, Increment (Increment (Increment (diffItems (trackDiff 7)))))" by simp
  have h7: "distinct (map fst ?vd)" by simp
  have h8: "distinct (map fst ?md)" by simp
  have h9: "map_of ?vd ''CVE-1/nvd'' = Some ?dv" by simp
  have h10: "map_of ?md ''CVE-1/nvd'' = Some ?dm" by simp
  have m: "map snd (merge_diffs ?md ?vd) = [?dm, ?dv2]"
    by (simp add: merge_diffs_def)
  have "snd (snd (DiffStore ?build ?diffV ?diffM ?s ?t)) = Inr (map snd (merge_diffs ?md ?vd))"
    using DiffStore_metadata_entry_replaces [where build = ?build and diffV = ?diffV
        and diffM = ?diffM, OF h1 h2 h3 h4 h5 h6 h7 h8 h9 h10]
    by blast
  then have r: "snd (snd (DiffStore ?build ?diffV ?diffM ?s ?t)) = Inr [?dm, ?dv2]"
    unfolding m .
  show ?thesis by (intro conjI h7 h8 r)
qed

text \<open>
  Claim C1 as stated fails: the merge loop assigns the metadata-stage entry to the key,
  which replaces the vulnerability-stage entry, reasons included. When the vulnerability
  stage reports \<open>CVE-1\<close> with the reason "vulnerability added" and the metadata stage reports
  the same key with the reason "severity changed", the changeset holds the one entry of the
  metadata stage, and the reason "vulnerability added" is not in it.
\<close>

theorem DiffStore_merge_counterexample:
  "snd (snd (DiffStore (\<lambda>vulns. ())
     (\<lambda>baseVulns targetVulns basePkgs targetPkgs items.
        ([(''CVE-1/nvd'', \<lparr>DiffID = ''CVE-1'', DiffNamespace = ''nvd'', Kind = Added,
                        Reasons = [''vulnerability added''], Packages = [''my-package'']\<rparr>)],
         Increment items))
     (\<lambda>baseMetadata targetMetadata basePkgs targetPkgs items.
        ([(''CVE-1/nvd'', \<lparr>DiffID = ''CVE-1'', DiffNamespace = ''nvd'', Kind = Changed,
                        Reasons = [''severity changed''], Packages = [''my-package'']\<rparr>)],
         Increment items))
     (empty_store\<lparr>metadata_rows :=
        [\<lparr>ID = ''CVE-1'', Namespace = ''nvd'', Severity = ''Low'', URLs = [],
          Description = ''d'', Cvss = []\<rparr>]\<rparr> :: (string, Vulnerability, unit) DB)
     \<lparr>reader_GetAllVulnerabilities =
        Inr [\<lparr>VulnID = ''CVE-1'', VulnNamespace = ''nvd'', PackageName = ''my-package'',
              VersionConstraint = ''< 2.0''\<rparr>],
      reader_GetAllVulnerabilityMetadata =
        Inr [\<lparr>ID = ''CVE-1'', Namespace = ''nvd'', Severity = ''High'', URLs = [],
              Description = ''d'', Cvss = []\<rparr>]\<rparr>))
   = Inr [\<lparr>DiffID = ''CVE-1'', DiffNamespace = ''nvd'', Kind = Changed,
            Reasons = [''severity changed''], Packages = [''my-package'']\<rparr>] \<and>
   [''severity changed''] \<noteq> [''vulnerability added''] @ [''severity changed''] \<and>
   ''vulnerability added'' \<notin> set [''severity changed'']"
  by code_simp

lemma DiffStore_target_vulns_fail:
  "reader_GetAllVulnerabilities targetStore = Inl e \<Longrightarrow>
     DiffStore build diffV diffM s targetStore =
       (\<lparr>stager_Current = ''reading target vulnerabilities'',
         rowsProgress = \<lparr>current = 1, total = 7, completed = False\<rparr>,
         diffItems = \<lparr>current = 0, total = 0, completed = False\<rparr>\<rparr>, s, Inl e)"
  by (simp add: DiffStore_def Let_def trackDiff_def rows_Increment_def set_stage_def
      Increment_def)

lemma DiffStore_base_vulns_fail:
  "reader_GetAllVulnerabilities targetStore = Inr targetVulns \<Longrightarrow>
   GetAllVulnerabilities s = (s1, Inl e) \<Longrightarrow>
     DiffStore build diffV diffM s targetStore =
       (\<lparr>stager_Current = ''reading base vulnerabilities'',
         rowsProgress = \<lparr>current = 2, total = 7, completed = False\<rparr>,
         diffItems = \<lparr>current = 0, total = 0, completed = False\<rparr>\<rparr>, s1, Inl e)"
  by (simp add: DiffStore_def Let_def trackDiff_def rows_Increment_def set_stage_def
      Increment_def)

lemma DiffStore_base_metadata_fail:
  "reader_GetAllVulnerabilities targetStore = Inr targetVulns \<Longrightarrow>
   GetAllVulnerabilities s = (s1, Inr baseVulns) \<Longrightarrow>
   GetAllVulnerabilityMetadata s1 = (s2, Inl e) \<Longrightarrow>
     DiffStore build diffV diffM s targetStore =
       (\<lparr>stager_Current = ''reading base metadata'',
         rowsProgress = \<lparr>current = 2, total = 7, completed = False\<rparr>,
         diffItems = snd (diffV baseVulns targetVulns (build baseVulns) (build targetVulns)
                            (diffItems (trackDiff 7)))\<rparr>, s2, Inl e)"
  by (simp add: DiffStore_def Let_def trackDiff_def rows_Increment_def set_stage_def
      Increment_def split: prod.splits)

lemma DiffStore_target_metadata_fail:
  "reader_GetAllVulnerabilities targetStore = Inr targetVulns \<Longrightarrow>
   GetAllVulnerabilities s = (s1, Inr baseVulns) \<Longrightarrow>
   GetAllVulnerabilityMetadata s1 = (s2, Inr baseMetadata) \<Longrightarrow>
   reader_GetAllVulnerabilityMetadata targetStore = Inl e \<Longrightarrow>
     DiffStore build diffV diffM s targetStore =
       (\<lparr>stager_Current = ''reading target metadata'',
         rowsProgress = \<lparr>current = 3, total = 7, completed = False\<rparr>,
         diffItems = snd (diffV baseVulns targetVulns (build baseVulns) (build targetVulns)
                            (diffItems (trackDiff 7)))\<rparr>, s2, Inl e)"
  by (simp add: DiffStore_def Let_def trackDiff_def rows_Increment_def set_stage_def
      Increment_def split: prod.splits)

lemma DiffStore_all_reads_work:
  assumes "reader_GetAllVulnerabilities targetStore = Inr targetVulns"
    and "GetAllVulnerabilities s = (s1, Inr baseVulns)"
    and "GetAllVulnerabilityMetadata s1 = (s2, Inr baseMetadata)"
    and "reader_GetAllVulnerabilityMetadata targetStore = Inr targetMetadata"
  shows "\<exists>t allDiffs. DiffStore build diffV diffM s targetStore = (t, s2, Inr allDiffs) \<and>
           completed (rowsProgress t) \<and> completed (diffItems t)"
proof -
  obtain vulnDiffs items1 where v:
    "diffV baseVulns targetVulns (build baseVulns) (build targetVulns) (diffItems (trackDiff 7))
       = (vulnDiffs, items1)"
    by (cases "diffV baseVulns targetVulns (build baseVulns) (build targetVulns)
          (diffItems (trackDiff 7))") auto
  obtain metaDiffs items2 where m:
    "diffM baseMetadata targetMetadata (build baseVulns) (build targetVulns) items1
       = (metaDiffs, items2)"
    by (cases "diffM baseMetadata targetMetadata (build baseVulns) (build targetVulns) items1")
      auto
  show ?thesis
    using DiffStore_success [where build = build and diffV = diffV and diffM = diffM,
        OF assms(1) assms(2) v assms(3) assms(4) m]
    by simp
qed

text \<open>
  Claim C7, amended. If any of the four full-table reads fails (target vulnerabilities,
  base vulnerabilities, base metadata, target metadata, in this order, each made only when
  the ones before worked), \<open>DiffStore\<close> returns that read's error and no changeset. If all
  four work it returns a changeset, and whenever it returns a changeset both progress
  counters are marked complete.
\<close>

theorem DiffStore_outcomes:
  "(reader_GetAllVulnerabilities targetStore = Inl e \<longrightarrow>
      snd (snd (DiffStore build diffV diffM s targetStore)) = Inl e) \<and>
   (reader_GetAllVulnerabilities targetStore = Inr targetVulns \<and>
    GetAllVulnerabilities s = (s1, Inl e) \<longrightarrow>
      snd (snd (DiffStore build diffV diffM s targetStore)) = Inl e) \<and>
   (reader_GetAllVulnerabilities targetStore = Inr targetVulns \<and>
    GetAllVulnerabilities s = (s1, Inr baseVulns) \<and>
    GetAllVulnerabilityMetadata s1 = (s2, Inl e) \<longrightarrow>
      snd (snd (DiffStore build diffV diffM s targetStore)) = Inl e) \<and>
   (reader_GetAllVulnerabilities targetStore = Inr targetVulns \<and>
    GetAllVulnerabilities s = (s1, Inr baseVulns) \<and>
    GetAllVulnerabilityMetadata s1 = (s2, Inr baseMetadata) \<and>
    reader_GetAllVulnerabilityMetadata targetStore = Inl e \<longrightarrow>
      snd (snd (DiffStore build diffV diffM s targetStore)) = Inl e) \<and>
   (reader_GetAllVulnerabilities targetStore = Inr targetVulns \<and>
    GetAllVulnerabilities s = (s1, Inr baseVulns) \<and>
    GetAllVulnerabilityMetadata s1 = (s2, Inr baseMetadata) \<and>
    reader_GetAllVulnerabilityMetadata targetStore = Inr targetMetadata \<longrightarrow>
      (\<exists>allDiffs. snd (snd (DiffStore build diffV diffM s targetStore)) = Inr allDiffs)) \<and>
   ((\<exists>allDiffs. snd (snd (DiffStore build diffV diffM s targetStore)) = Inr allDiffs) \<longrightarrow>
      completed (rowsProgress (fst (DiffStore build diffV diffM s targetStore))) \<and>
      completed (diffItems (fst (DiffStore build diffV diffM s targetStore))))"
proof (intro conjI impI; (elim conjE)?)
  assume "reader_GetAllVulnerabilities targetStore = Inl e"
  then show "snd (snd (DiffStore build diffV diffM s targetStore)) = Inl e"
    by (simp add: DiffStore_target_vulns_fail)
next
  assume "reader_GetAllVulnerabilities targetStore = Inr targetVulns"
    "GetAllVulnerabilities s = (s1, Inl e)"
  then show "snd (snd (DiffStore build diffV diffM s targetStore)) = Inl e"
    by (simp add: DiffStore_base_vulns_fail)
next
  assume "reader_GetAllVulnerabilities targetStore = Inr targetVulns"
    "GetAllVulnerabilities s = (s1, Inr baseVulns)"
    "GetAllVulnerabilityMetadata s1 = (s2, Inl e)"
  then show "snd (snd (DiffStore build diffV diffM s targetStore)) = Inl e"
    by (simp add: DiffStore_base_metadata_fail)
next
  assume "reader_GetAllVulnerabilities targetStore = Inr targetVulns"
    "GetAllVulnerabilities s = (s1, Inr baseVulns)"
    "GetAllVulnerabilityMetadata s1 = (s2, Inr baseMetadata)"
    "reader_GetAllVulnerabilityMetadata targetStore = Inl e"
  then show "snd (snd (DiffStore build diffV diffM s targetStore)) = Inl e"
    by (simp add: DiffStore_target_metadata_fail)
next
  assume "reader_GetAllVulnerabilities targetStore = Inr targetVulns"
    "GetAllVulnerabilities s = (s1, Inr baseVulns)"
    "GetAllVulnerabilityMetadata s1 = (s2, Inr baseMetadata)"
    "reader_GetAllVulnerabilityMetadata targetStore = Inr targetMetadata"
  then show "\<exists>allDiffs. snd (snd (DiffStore build diffV diffM s targetStore)) = Inr allDiffs"
    using DiffStore_all_reads_work [of targetStore targetVulns s s1 baseVulns s2 baseMetadata
        targetMetadata build diffV diffM]
    by auto
next
  assume ok: "\<exists>allDiffs. snd (snd (DiffStore build diffV diffM s targetStore)) = Inr allDiffs"
  let ?R = "DiffStore build diffV diffM s targetStore"
  have "completed (rowsProgress (fst ?R)) \<and> completed (diffItems (fst ?R))"
  proof (cases "reader_GetAllVulnerabilities targetStore")
    case (Inl e1)
    then show ?thesis using ok by (simp add: DiffStore_target_vulns_fail)
  next
    case tv: (Inr tv)
    obtain x1 r1 where bv: "GetAllVulnerabilities s = (x1, r1)"
      by (cases "GetAllVulnerabilities s") auto
    show ?thesis
    proof (cases r1)
      case (Inl e2)
      then show ?thesis using ok tv bv by (simp add: DiffStore_base_vulns_fail)
    next
      case b: (Inr bvs)
      obtain x2 r2 where bm: "GetAllVulnerabilityMetadata x1 = (x2, r2)"
        by (cases "GetAllVulnerabilityMetadata x1") auto
      show ?thesis
      proof (cases r2)
        case (Inl e3)
        then show ?thesis
          using ok DiffStore_base_metadata_fail [where build = build and diffV = diffV
              and diffM = diffM, OF tv bv [unfolded b] bm [unfolded Inl]]
          by simp
      next
        case m: (Inr bms)
        show ?thesis
        proof (cases "reader_GetAllVulnerabilityMetadata targetStore")
          case (Inl e4)
          then show ?thesis
            using ok DiffStore_target_metadata_fail [where build = build and diffV = diffV
              and diffM = diffM, OF tv bv [unfolded b] bm [unfolded m] Inl]
            by simp
        next
          case (Inr tms)
          then show ?thesis
            using DiffStore_all_reads_work [where build = build and diffV = diffV
              and diffM = diffM, OF tv bv [unfolded b] bm [unfolded m] Inr]
            by auto
        qed
      qed
    qed
  qed
  then show "completed (rowsProgress (fst ?R))" "completed (diffItems (fst ?R))" by simp_all
qed

theorem DiffStore_outcomes_witness:
  "snd (snd (DiffStore (\<lambda>vulns. ())
     (\<lambda>baseVulns targetVulns basePkgs targetPkgs items. ([], items))
     (\<lambda>baseMetadata targetMetadata basePkgs targetPkgs items.
        ([(''CVE-1/nvd'', \<lparr>DiffID = ''CVE-1'', DiffNamespace = ''nvd'', Kind = Added,
                        Reasons = [''metadata added''], Packages = []\<rparr>)], Increment items))
     (empty_store :: (string, Vulnerability, unit) DB)
     \<lparr>reader_GetAllVulnerabilities = Inr [],
      reader_GetAllVulnerabilityMetadata =
        Inr [\<lparr>ID = ''CVE-1'', Namespace = ''nvd'', Severity = ''High'', URLs = [],
              Description = ''d'', Cvss = []\<rparr>]\<rparr>))
   = Inr [\<lparr>DiffID = ''CVE-1'', DiffNamespace = ''nvd'', Kind = Added,
            Reasons = [''metadata added''], Packages = []\<rparr>] \<and>
   completed (rowsProgress (fst (DiffStore (\<lambda>vulns. ())
     (\<lambda>baseVulns targetVulns basePkgs targetPkgs items. ([], items))
     (\<lambda>baseMetadata targetMetadata basePkgs targetPkgs items.
        ([(''CVE-1/nvd'', \<lparr>DiffID = ''CVE-1'', DiffNamespace = ''nvd'', Kind = Added,
                        Reasons = [''metadata added''], Packages = []\<rparr>)], Increment items))
     (empty_store :: (string, Vulnerability, unit) DB)
     \<lparr>reader_GetAllVulnerabilities = Inr [],
      reader_GetAllVulnerabilityMetadata =
        Inr [\<lparr>ID = ''CVE-1'', Namespace = ''nvd'', Severity = ''High'', URLs = [],
              Description = ''d'', Cvss = []\<rparr>]\<rparr>))) \<and>
   completed (diffItems (fst (DiffStore (\<lambda>vulns. ())
     (\<lambda>baseVulns targetVulns basePkgs targetPkgs items. ([], items))
     (\<lambda>baseMetadata targetMetadata basePkgs targetPkgs items.
        ([(''CVE-1/nvd'', \<lparr>DiffID = ''CVE-1'', DiffNamespace = ''nvd'', Kind = Added,
                        Reasons = [''metadata added''], Packages = []\<rparr>)], Increment items))
     (empty_store :: (string, Vulnerability, unit) DB)
     \<lparr>reader_GetAllVulnerabilities = Inr [],
      reader_GetAllVulnerabilityMetadata =
        Inr [\<lparr>ID = ''CVE-1'', Namespace = ''nvd'', Severity = ''High'', URLs = [],
              Description = ''d'', Cvss = []\<rparr>]\<rparr>))) \<and>
   GetAllVulnerabilityMetadata
     (empty_store\<lparr>faults := [Some (BackendError ''disk I/O error'')]\<rparr>
        :: (string, Vulnerability, unit) DB)
   = (empty_store, Inl (BackendError ''disk I/O error'')) \<and>
   snd (snd (DiffStore (\<lambda>vulns. ())
     (\<lambda>baseVulns targetVulns basePkgs targetPkgs items. ([], items))
     (\<lambda>baseMetadata targetMetadata basePkgs targetPkgs items.
        ([(''CVE-1/nvd'', \<lparr>DiffID = ''CVE-1'', DiffNamespace = ''nvd'', Kind = Added,
                        Reasons = [''metadata added''], Packages = []\<rparr>)], Increment items))
     (empty_store\<lparr>faults := [None, Some (BackendError ''disk I/O error'')]\<rparr>
        :: (string, Vulnerability, unit) DB)
     \<lparr>reader_GetAllVulnerabilities = Inr [],
      reader_GetAllVulnerabilityMetadata =
        Inr [\<lparr>ID = ''CVE-1'', Namespace = ''nvd'', Severity = ''High'', URLs = [],
              Description = ''d'', Cvss = []\<rparr>]\<rparr>))
   = Inl (BackendError ''disk I/O error'')"
proof -
  let ?dm = "\<lparr>DiffID = ''CVE-1'', DiffNamespace = ''nvd'', Kind = Added,
                        Reasons = [''metadata added''], Packages = []\<rparr>"
  let ?m = "\<lparr>ID = ''CVE-1'', Namespace = ''nvd'', Severity = ''High'', URLs = [],
              Description = ''d'', Cvss = []\<rparr> :: string VulnerabilityMetadata"
  let ?build = "\<lambda>vulns :: Vulnerability list. ()"
  let ?diffV = "\<lambda>(baseVulns :: Vulnerability list) (targetVulns :: Vulnerability list)
      (basePkgs :: unit) (targetPkgs :: unit) (items :: Manual).
      ([] :: (string \<times> Diff) list, items)"
  let ?diffM = "\<lambda>(baseMetadata :: string VulnerabilityMetadata list)
      (targetMetadata :: string VulnerabilityMetadata list)
      (basePkgs :: unit) (targetPkgs :: unit) items. ([(''CVE-1/nvd'', ?dm)], Increment items)"
  let ?s = "empty_store :: (string, Vulnerability, unit) DB"
  let ?sf = "empty_store\<lparr>faults := [None, Some (BackendError ''disk I/O error'')]\<rparr>
        :: (string, Vulnerability, unit) DB"
  let ?s1 = "empty_store\<lparr>faults := [Some (BackendError ''disk I/O error'')]\<rparr>
        :: (string, Vulnerability, unit) DB"
  let ?t = "\<lparr>reader_GetAllVulnerabilities = Inr [],
      reader_GetAllVulnerabilityMetadata = Inr [?m]\<rparr> :: (string, Vulnerability) StoreReader"
  have tv: "reader_GetAllVulnerabilities ?t = Inr []" by simp
  have tm: "reader_GetAllVulnerabilityMetadata ?t = Inr [?m]" by simp
  have bv: "GetAllVulnerabilities ?s = (?s, Inr [])" by code_simp
  have bm: "GetAllVulnerabilityMetadata ?s = (?s, Inr [])" by code_simp
  have bvf: "GetAllVulnerabilities ?sf = (?s1, Inr [])" by code_simp
  have bmf: "GetAllVulnerabilityMetadata ?s1 = (?s, Inl (BackendError ''disk I/O error''))"
    by code_simp
  have res: "snd (snd (DiffStore ?build ?diffV ?diffM ?s ?t)) = Inr [?dm]" by code_simp
  note ok = DiffStore_outcomes [where build = ?build and diffV = ?diffV and diffM = ?diffM
      and s = ?s and targetStore = ?t and targetVulns = "[]" and ?s1.0 = ?s
      and baseVulns = "[]" and ?s2.0 = ?s and baseMetadata = "[]" and targetMetadata = "[?m]"]
  have c: "completed (rowsProgress (fst (DiffStore ?build ?diffV ?diffM ?s ?t)))"
      "completed (diffItems (fst (DiffStore ?build ?diffV ?diffM ?s ?t)))"
    using ok tv bv bm tm by blast+
  note failing = DiffStore_outcomes [where build = ?build and diffV = ?diffV and diffM = ?diffM
      and s = ?sf and targetStore = ?t and targetVulns = "[]" and ?s1.0 = ?s1
      and baseVulns = "[]" and ?s2.0 = ?s and e = "BackendError ''disk I/O error''"]
  have f: "snd (snd (DiffStore ?build ?diffV ?diffM ?sf ?t)) = Inl (BackendError ''disk I/O error'')"
    using failing tv bvf bmf by blast
  show ?thesis by (intro conjI res c bmf f)
qed

text \<open>
  Claim C7 as stated fails in its first half: the counters are marked complete only on
  the path that returns a changeset. When the read of the base metadata fails, or the read
  of the target vulnerabilities, \<open>DiffStore\<close> returns the error with both counters not
  marked complete.
\<close>

theorem DiffStore_counterexample:
  "DiffStore (\<lambda>vulns. ())
     (\<lambda>baseVulns targetVulns basePkgs targetPkgs items. ([], items))
     (\<lambda>baseMetadata targetMetadata basePkgs targetPkgs items.
        ([(''CVE-1/nvd'', \<lparr>DiffID = ''CVE-1'', DiffNamespace = ''nvd'', Kind = Added,
                        Reasons = [''metadata added''], Packages = []\<rparr>)], Increment items))
     (empty_store\<lparr>faults := [None, Some (BackendError ''disk I/O error'')]\<rparr>
        :: (string, Vulnerability, unit) DB)
     \<lparr>reader_GetAllVulnerabilities = Inr [],
      reader_GetAllVulnerabilityMetadata =
        Inr [\<lparr>ID = ''CVE-1'', Namespace = ''nvd'', Severity = ''High'', URLs = [],
              Description = ''d'', Cvss = []\<rparr>]\<rparr>
   = (\<lparr>stager_Current = ''reading base metadata'',
       rowsProgress = \<lparr>current = 2, total = 7, completed = False\<rparr>,
       diffItems = \<lparr>current = 0, total = 0, completed = False\<rparr>\<rparr>,
      empty_store, Inl (BackendError ''disk I/O error'')) \<and>
   DiffStore (\<lambda>vulns. ())
     (\<lambda>baseVulns targetVulns basePkgs targetPkgs items. ([], items))
     (\<lambda>baseMetadata targetMetadata basePkgs targetPkgs items.
        ([(''CVE-1/nvd'', \<lparr>DiffID = ''CVE-1'', DiffNamespace = ''nvd'', Kind = Added,
                        Reasons = [''metadata added''], Packages = []\<rparr>)], Increment items))
     (empty_store :: (string, Vulnerability, unit) DB)
     \<lparr>reader_GetAllVulnerabilities = Inl (BackendError ''target unreadable''),
      reader_GetAllVulnerabilityMetadata = Inr []\<rparr>
   = (\<lparr>stager_Current = ''reading target vulnerabilities'',
       rowsProgress = \<lparr>current = 1, total = 7, completed = False\<rparr>,
       diffItems = \<lparr>current = 0, total = 0, completed = False\<rparr>\<rparr>,
      empty_store, Inl (BackendError ''target unreadable''))"
  by code_simp

end
